theory Spec2Isabelle
  imports Complex_Main "HOL-Library.Word" "HOL-Library.Sublist"
begin

section \<open>Floating-point values\<close>

text \<open>
  The firmware computes with C \<^verbatim>\<open>float\<close> (IEEE 754 binary32) and \<^verbatim>\<open>double\<close> (binary64). A
  value is the real number it denotes, or one of the three special values. An arithmetic
  operation computes the exact result and rounds it to the format of the operation: to the
  nearest value of the format, a tie to the one with an even significand, with gradual
  underflow, and to an infinity on overflow. Division by zero, the propagation of NaN and
  of infinities and the comparisons with NaN (always false) follow IEEE 754. A product
  followed by a sum is rounded twice (no fused multiply-add). Zero has no sign: every
  zero divisor of the firmware is a positive zero (\<^verbatim>\<open>adc / 4095.0\<close> of a non-negative
  reading, \<^verbatim>\<open>Vcc - Vout\<close> of equal operands).
\<close>

datatype fval = Fin real | PInf | NInf | NaN

text \<open>The nearest integer, a tie going to the even one.\<close>

definition round_even :: "real \<Rightarrow> int" where
  "round_even x =
     (let f = \<lfloor>x\<rfloor>; d = x - of_int f
      in if d < 1 / 2 then f else if 1 / 2 < d then f + 1 else if even f then f else f + 1)"

text \<open>
  The exponent of a magnitude \<open>a\<close>: the largest \<open>e\<close> among \<open>emin, \<dots>, emin + n\<close> with
  \<open>2 powi e \<le> a\<close>, and \<open>emin\<close> below that range (the subnormal numbers).
\<close>

primrec exp_search :: "real \<Rightarrow> int \<Rightarrow> nat \<Rightarrow> int" where
  "exp_search a emin 0 = emin"
| "exp_search a emin (Suc n) =
     (if 2 powi (emin + int (Suc n)) \<le> a then emin + int (Suc n) else exp_search a emin n)"

text \<open>
  Rounding to \<open>p\<close> significant bits with exponents from \<open>emin\<close> to \<open>emax\<close>: \<open>x\<close> goes to
  the nearest multiple of the unit in the last place of its binade.
\<close>

definition grid_round :: "nat \<Rightarrow> int \<Rightarrow> int \<Rightarrow> real \<Rightarrow> real" where
  "grid_round p emin emax x =
     (let e = exp_search \<bar>x\<bar> emin (nat (emax - emin));
          u = 2 powi (e - int p + 1)
      in of_int (round_even (x / u)) * u)"

definition fl_round :: "nat \<Rightarrow> int \<Rightarrow> int \<Rightarrow> real \<Rightarrow> fval" where
  "fl_round p emin emax x =
     (let y = grid_round p emin emax x
      in if 2 powi (emax + 1) \<le> \<bar>y\<bar> then (if 0 < x then PInf else NInf) else Fin y)"

definition f32 :: "real \<Rightarrow> fval" where
  "f32 x = fl_round 24 (- 126) 127 x"

definition f64 :: "real \<Rightarrow> fval" where
  "f64 x = fl_round 53 (- 1022) 1023 x"

text \<open>Conversion of a value to \<^verbatim>\<open>float\<close> and to \<^verbatim>\<open>double\<close>.\<close>

fun to_f32 :: "fval \<Rightarrow> fval" where
  "to_f32 (Fin x) = f32 x"
| "to_f32 PInf = PInf"
| "to_f32 NInf = NInf"
| "to_f32 NaN = NaN"

fun to_f64 :: "fval \<Rightarrow> fval" where
  "to_f64 (Fin x) = f64 x"
| "to_f64 PInf = PInf"
| "to_f64 NInf = NInf"
| "to_f64 NaN = NaN"

text \<open>The exact results of the operations, before rounding.\<close>

fun e_neg :: "fval \<Rightarrow> fval" where
  "e_neg (Fin x) = Fin (- x)"
| "e_neg PInf = NInf"
| "e_neg NInf = PInf"
| "e_neg NaN = NaN"

fun e_add :: "fval \<Rightarrow> fval \<Rightarrow> fval" where
  "e_add (Fin x) (Fin y) = Fin (x + y)"
| "e_add NaN _ = NaN"
| "e_add _ NaN = NaN"
| "e_add PInf NInf = NaN"
| "e_add NInf PInf = NaN"
| "e_add PInf _ = PInf"
| "e_add NInf _ = NInf"
| "e_add _ PInf = PInf"
| "e_add _ NInf = NInf"

text \<open>The infinity whose sign is that of the real \<open>x\<close>; NaN for \<open>x = 0\<close>.\<close>

definition inf_of_sign :: "real \<Rightarrow> fval" where
  "inf_of_sign x = (if 0 < x then PInf else if x < 0 then NInf else NaN)"

fun e_mul :: "fval \<Rightarrow> fval \<Rightarrow> fval" where
  "e_mul (Fin x) (Fin y) = Fin (x * y)"
| "e_mul NaN _ = NaN"
| "e_mul _ NaN = NaN"
| "e_mul (Fin x) PInf = inf_of_sign x"
| "e_mul (Fin x) NInf = inf_of_sign (- x)"
| "e_mul PInf (Fin y) = inf_of_sign y"
| "e_mul NInf (Fin y) = inf_of_sign (- y)"
| "e_mul PInf PInf = PInf"
| "e_mul NInf NInf = PInf"
| "e_mul PInf NInf = NInf"
| "e_mul NInf PInf = NInf"

fun e_div :: "fval \<Rightarrow> fval \<Rightarrow> fval" where
  "e_div (Fin x) (Fin y) = (if y = 0 then inf_of_sign x else Fin (x / y))"
| "e_div NaN _ = NaN"
| "e_div _ NaN = NaN"
| "e_div (Fin x) PInf = Fin 0"
| "e_div (Fin x) NInf = Fin 0"
| "e_div PInf (Fin y) = (if 0 \<le> y then PInf else NInf)"
| "e_div NInf (Fin y) = (if 0 \<le> y then NInf else PInf)"
| "e_div PInf PInf = NaN"
| "e_div PInf NInf = NaN"
| "e_div NInf PInf = NaN"
| "e_div NInf NInf = NaN"

text \<open>The operations on \<^verbatim>\<open>float\<close> operands, and those on \<^verbatim>\<open>double\<close> operands.\<close>

definition f_add :: "fval \<Rightarrow> fval \<Rightarrow> fval" where
  "f_add a b = to_f32 (e_add a b)"

definition f_sub :: "fval \<Rightarrow> fval \<Rightarrow> fval" where
  "f_sub a b = to_f32 (e_add a (e_neg b))"

definition f_mul :: "fval \<Rightarrow> fval \<Rightarrow> fval" where
  "f_mul a b = to_f32 (e_mul a b)"

definition f_div :: "fval \<Rightarrow> fval \<Rightarrow> fval" where
  "f_div a b = to_f32 (e_div a b)"

definition d_mul :: "fval \<Rightarrow> fval \<Rightarrow> fval" where
  "d_mul a b = to_f64 (e_mul a b)"

definition d_div :: "fval \<Rightarrow> fval \<Rightarrow> fval" where
  "d_div a b = to_f64 (e_div a b)"

fun f_abs :: "fval \<Rightarrow> fval" where
  "f_abs (Fin x) = Fin \<bar>x\<bar>"
| "f_abs PInf = PInf"
| "f_abs NInf = PInf"
| "f_abs NaN = NaN"

text \<open>Comparisons; a \<^verbatim>\<open>float\<close> compared with a \<^verbatim>\<open>double\<close> is converted without change.\<close>

fun f_lt :: "fval \<Rightarrow> fval \<Rightarrow> bool" where
  "f_lt (Fin x) (Fin y) = (x < y)"
| "f_lt NaN _ = False"
| "f_lt _ NaN = False"
| "f_lt _ NInf = False"
| "f_lt PInf _ = False"
| "f_lt NInf _ = True"
| "f_lt _ PInf = True"

fun f_le :: "fval \<Rightarrow> fval \<Rightarrow> bool" where
  "f_le (Fin x) (Fin y) = (x \<le> y)"
| "f_le NaN _ = False"
| "f_le _ NaN = False"
| "f_le NInf _ = True"
| "f_le _ PInf = True"
| "f_le _ NInf = False"
| "f_le PInf _ = False"

fun f_eq :: "fval \<Rightarrow> fval \<Rightarrow> bool" where
  "f_eq NaN _ = False"
| "f_eq _ NaN = False"
| "f_eq a b = (a = b)"

text \<open>
  \<^verbatim>\<open>log10\<close> on a \<^verbatim>\<open>float\<close> and \<^verbatim>\<open>pow(10, .)\<close>, which computes in \<^verbatim>\<open>double\<close> and whose
  result \<^verbatim>\<open>getPPM\<close> returns as a \<^verbatim>\<open>float\<close>. Both library functions are taken as correctly
  rounded.
\<close>

fun f_log10 :: "fval \<Rightarrow> fval" where
  "f_log10 (Fin x) = (if 0 < x then f32 (log 10 x) else if x = 0 then NInf else NaN)"
| "f_log10 PInf = PInf"
| "f_log10 NInf = NaN"
| "f_log10 NaN = NaN"

fun f_pow10 :: "fval \<Rightarrow> fval" where
  "f_pow10 (Fin x) = to_f32 (f64 (10 powr x))"
| "f_pow10 PInf = PInf"
| "f_pow10 NInf = Fin 0"
| "f_pow10 NaN = NaN"

section \<open>Ammonia sensor: constants of amoniaSensor.h\<close>

text \<open>A \<^verbatim>\<open>float\<close> constant is the binary32 value nearest to its decimal literal.\<close>

definition Vcc :: fval where "Vcc = Fin 5"
definition RL :: fval where "RL = Fin 4700"
definition NH3_Curve :: "fval list" where "NH3_Curve = [f32 (- 2.3447), f32 0.0670]"

definition REG_INTERCEPT :: fval where "REG_INTERCEPT = f32 (- 0.805)"
definition REG_SLOPE :: fval where "REG_SLOPE = f32 1.989"

text \<open>\<^verbatim>\<open>unsigned long\<close> is 32 bits wide on the target; both intervals are in milliseconds.\<close>

definition calibrationInterval :: "32 word" where
  "calibrationInterval = 2 * 60 * 60 * 1000"

definition AVERAGING_INTERVAL :: "32 word" where
  "AVERAGING_INTERVAL = 5 * 60 * 1000"

section \<open>Ordinal scoring\<close>

text \<open>
  \<open>likert_score\<close> is the local variable \<^verbatim>\<open>score\<close> of \<^verbatim>\<open>konversiKeLikert\<close> (the clamp of
  the argument and the regression line, in \<^verbatim>\<open>float\<close> arithmetic); \<open>konversiKeLikert\<close>
  compares it with the two cut-points.
\<close>

definition likert_score :: "fval \<Rightarrow> fval" where
  "likert_score ppm0 =
     (let ppm = (if f_lt ppm0 (Fin 0) then Fin 0 else ppm0)
      in f_add REG_INTERCEPT (f_mul REG_SLOPE ppm))"

definition konversiKeLikert :: "fval \<Rightarrow> int" where
  "konversiKeLikert ppm =
     (let score = likert_score ppm
      in if f_le score (Fin 1.5) then 1
         else if f_le score (Fin 2.5) then 2
         else 3)"

section \<open>Ammonia sensor: state and hardware inputs\<close>

text \<open>
  The globals of amoniaSensor.cpp, and \<^verbatim>\<open>currentStatus\<close> of display.cpp, form the state.
  \<^verbatim>\<open>int\<close> and \<^verbatim>\<open>unsigned long\<close> are 32-bit words (\<^verbatim>\<open>bufferCount\<close> is read as signed).
  \<open>adcReads\<close> counts the calls of \<^verbatim>\<open>analogRead\<close> made so far: the readings of the
  converter are an input stream \<open>adc\<close>, and the call number \<open>k\<close> (from zero) returns
  \<open>adc k\<close>. A value returned by \<^verbatim>\<open>millis()\<close> is an argument of the function that calls
  it. The serial log and the indicator LED are written only and are left out.
\<close>

record amonia_state =
  R0 :: fval
  sedangKalibrasi :: bool
  lastCalibrationTime :: "32 word"
  amoniaPPMBuffer :: fval
  bufferCount :: "32 word"
  lastAveragingTime :: "32 word"
  currentStatus :: string
  adcReads :: nat

definition initial_state :: amonia_state where
  "initial_state =
     \<lparr>R0 = Fin 0, sedangKalibrasi = True, lastCalibrationTime = 0,
      amoniaPPMBuffer = Fin 0, bufferCount = 0, lastAveragingTime = 0,
      currentStatus = ''Memulai...'', adcReads = 0\<rparr>"

text \<open>\<^verbatim>\<open>displayStatus\<close> of display.cpp redraws only when the status string changes.\<close>

definition displayStatus :: "string \<Rightarrow> amonia_state \<Rightarrow> amonia_state" where
  "displayStatus status s =
     (if status \<noteq> currentStatus s then s\<lparr>currentStatus := status\<rparr> else s)"

text \<open>
  The sensor resistance derived from one reading, as both \<^verbatim>\<open>kalibrasiAmoniaSensor\<close> and
  \<^verbatim>\<open>updateAmoniaBuffer\<close> compute it:
  \<^verbatim>\<open>Vout = (adc / 4095.0) * Vcc; Rs = ((Vcc - Vout) / Vout) * RL\<close>. The first
  expression is computed in \<^verbatim>\<open>double\<close> (the literal is a \<^verbatim>\<open>double\<close>) and stored in a
  \<^verbatim>\<open>float\<close>; the second has \<^verbatim>\<open>float\<close> operands only.
\<close>

definition sensor_Rs :: "int \<Rightarrow> fval" where
  "sensor_Rs adc =
     (let Vout = to_f32 (d_mul (d_div (to_f64 (Fin (real_of_int adc))) (Fin 4095)) Vcc)
      in f_mul (f_div (f_sub Vcc Vout) Vout) RL)"

section \<open>Calibration\<close>

definition maxPembacaan :: nat where "maxPembacaan = 30"

text \<open>
  The end of \<^verbatim>\<open>kalibrasiAmoniaSensor\<close>, the same on both of its exits: the baseline is
  stored, the flag is cleared, the display shows "Online" and the time \<open>tdone\<close> returned
  by \<^verbatim>\<open>millis()\<close> is recorded.
\<close>

definition kalibrasi_selesai :: "fval \<Rightarrow> 32 word \<Rightarrow> amonia_state \<Rightarrow> amonia_state" where
  "kalibrasi_selesai r tdone s =
     (displayStatus ''Online'' (s\<lparr>R0 := r, sedangKalibrasi := False\<rparr>))
       \<lparr>lastCalibrationTime := tdone\<rparr>"

text \<open>
  The \<^verbatim>\<open>for\<close> loop, from iteration \<open>i\<close> with the locals \<^verbatim>\<open>rsLama\<close>, \<^verbatim>\<open>totalRs\<close> and
  \<^verbatim>\<open>stabilCount\<close>; the early \<^verbatim>\<open>return\<close> and the code after the loop are its two exits.
  \<^verbatim>\<open>delta\<close> is a \<^verbatim>\<open>float\<close> and is compared with the \<^verbatim>\<open>double\<close> nearest to 0.02; the
  divisors \<^verbatim>\<open>i + 1\<close> and \<^verbatim>\<open>maxPembacaan\<close> are converted to \<^verbatim>\<open>float\<close>.
\<close>

function kalibrasi_loop ::
  "(nat \<Rightarrow> int) \<Rightarrow> 32 word \<Rightarrow> nat \<Rightarrow> fval \<Rightarrow> fval \<Rightarrow> nat \<Rightarrow> amonia_state \<Rightarrow> amonia_state"
where
  "kalibrasi_loop adc tdone i rsLama totalRs stabilCount s =
     (if i < maxPembacaan then
        let a = adc (adcReads s);
            s1 = s\<lparr>adcReads := adcReads s + 1\<rparr>;
            Rs = sensor_Rs a;
            stabilCount1 =
              (if 0 < i then
                 (if f_lt (f_div (f_abs (f_sub Rs rsLama)) rsLama) (f64 0.02)
                  then stabilCount + 1 else 0)
               else stabilCount);
            totalRs1 = f_add totalRs Rs
        in if 5 \<le> stabilCount1
           then kalibrasi_selesai (f_div totalRs1 (f32 (real (i + 1)))) tdone s1
           else kalibrasi_loop adc tdone (i + 1) Rs totalRs1 stabilCount1 s1
      else kalibrasi_selesai (f_div totalRs (f32 (real maxPembacaan))) tdone s)"
  by pat_completeness auto
termination
  by (relation "measure (\<lambda>(adc, tdone, i, rsLama, totalRs, stabilCount, s). maxPembacaan - i)")
     auto

declare kalibrasi_loop.simps [simp del]

definition kalibrasiAmoniaSensor ::
  "(nat \<Rightarrow> int) \<Rightarrow> 32 word \<Rightarrow> amonia_state \<Rightarrow> amonia_state" where
  "kalibrasiAmoniaSensor adc tdone s =
     kalibrasi_loop adc tdone 0 (Fin 0) (Fin 0) 0 (displayStatus ''Kalibrasi...'' s)"

text \<open>
  \<open>now\<close> is the value of \<^verbatim>\<open>millis()\<close> in the condition (the subtraction is unsigned and
  wraps), \<open>tdone\<close> its value at the end of the calibration.
\<close>

definition autoKalibrasiAmoniaSensor ::
  "(nat \<Rightarrow> int) \<Rightarrow> 32 word \<Rightarrow> 32 word \<Rightarrow> amonia_state \<Rightarrow> amonia_state" where
  "autoKalibrasiAmoniaSensor adc now tdone s =
     (if \<not> sedangKalibrasi s \<and> calibrationInterval \<le> now - lastCalibrationTime s
      then kalibrasiAmoniaSensor adc tdone
             (displayStatus ''Auto Kalibrasi'' (s\<lparr>sedangKalibrasi := True\<rparr>))
      else s)"

section \<open>Concentration, buffering and the windowed average\<close>

definition getPPM :: "fval \<Rightarrow> fval \<Rightarrow> fval \<Rightarrow> fval" where
  "getPPM ratio a b = (let log_ppm = f_add (f_mul a (f_log10 ratio)) b in f_pow10 log_ppm)"

text \<open>The last two statements of \<^verbatim>\<open>updateAmoniaBuffer\<close>: one sample joins the buffer.\<close>

definition buffer_add :: "fval \<Rightarrow> amonia_state \<Rightarrow> amonia_state" where
  "buffer_add ppm s =
     s\<lparr>amoniaPPMBuffer := f_add (amoniaPPMBuffer s) ppm, bufferCount := bufferCount s + 1\<rparr>"

definition updateAmoniaBuffer :: "(nat \<Rightarrow> int) \<Rightarrow> amonia_state \<Rightarrow> amonia_state" where
  "updateAmoniaBuffer adc s =
     (if sedangKalibrasi s then s
      else
        let a = adc (adcReads s);
            s1 = s\<lparr>adcReads := adcReads s + 1\<rparr>;
            Rs = sensor_Rs a
        in if f_eq (R0 s1) (Fin 0) then s1
           else
             let ratio = f_div Rs (R0 s1);
                 ppm_NH3 = getPPM ratio (NH3_Curve ! 0) (NH3_Curve ! 1)
             in buffer_add ppm_NH3 s1)"

text \<open>\<^verbatim>\<open>amoniaPPMBuffer / bufferCount\<close>: the count is converted to a float.\<close>

definition buffer_mean :: "amonia_state \<Rightarrow> fval" where
  "buffer_mean s = f_div (amoniaPPMBuffer s) (f32 (real_of_int (sint (bufferCount s))))"

definition getAveragedPPM :: "32 word \<Rightarrow> amonia_state \<Rightarrow> fval \<times> amonia_state" where
  "getAveragedPPM now s =
     (if AVERAGING_INTERVAL \<le> now - lastAveragingTime s then
        let averagedPPM = (if 0 <s bufferCount s then buffer_mean s else Fin 0)
        in (averagedPPM,
            s\<lparr>amoniaPPMBuffer := Fin 0, bufferCount := 0, lastAveragingTime := now\<rparr>)
      else if 0 <s bufferCount s then (buffer_mean s, s)
      else (Fin 0, s))"

section \<open>Soap, tissue and water sensors\<close>

text \<open>
  \<^verbatim>\<open>String(long)\<close> of the Arduino core prints the decimal digits, after a minus sign for
  a negative number.
\<close>

definition digit_char :: "nat \<Rightarrow> char" where
  "digit_char d = ''0123456789'' ! d"

function dec_digits :: "nat \<Rightarrow> string" where
  "dec_digits n = (if n < 10 then [digit_char n] else dec_digits (n div 10) @ [digit_char (n mod 10)])"
  by pat_completeness auto
termination
  by (relation "measure (\<lambda>n. n)") auto

declare dec_digits.simps [simp del]

definition String_long :: "int \<Rightarrow> string" where
  "String_long n = (if n < 0 then CHR ''-'' # dec_digits (nat (- n)) else dec_digits (nat n))"

definition newline :: char where "newline = CHR 0x0A"

text \<open>
  \<^verbatim>\<open>getSoapData\<close>, given the three distances in centimetres that \<^verbatim>\<open>getDistance\<close> returned
  for the units 1, 2 and 3.
\<close>

definition getSoapData :: "int \<Rightarrow> int \<Rightarrow> int \<Rightarrow> string" where
  "getSoapData distance1 distance2 distance3 =
     (let status1 = (if 10 < distance1 then ''Habis'' else ''Aman'');
          status2 = (if 10 < distance2 then ''Habis'' else ''Aman'');
          status3 = (if 10 < distance3 then ''Habis'' else ''Aman'');
          data = ''--- Ketersediaan Sabun ---'' @ [newline];
          data = data @ (''Sabun 1 | Jarak: '' @ String_long distance1 @ '' cm | Status: ''
                   @ status1 @ [newline]);
          data = data @ (''Sabun 2 | Jarak: '' @ String_long distance2 @ '' cm | Status: ''
                   @ status2 @ [newline]);
          data = data @ (''Sabun 3 | Jarak: '' @ String_long distance3 @ '' cm | Status: ''
                   @ status3)
      in data)"

text \<open>The two levels of a digital pin; \<^verbatim>\<open>digitalRead\<close> returns an \<^verbatim>\<open>int\<close>.\<close>

definition LOW :: int where "LOW = 0"
definition HIGH :: int where "HIGH = 1"

text \<open>\<^verbatim>\<open>getTissueData\<close>, given the levels read on the pins of the units 1 and 2.\<close>

definition getTissueData :: "int \<Rightarrow> int \<Rightarrow> string" where
  "getTissueData pin1 pin2 =
     (let data = ''--- Ketersediaan Tisu ---'' @ [newline];
          data = (if pin1 = LOW then data @ ''Status 1: Tisu Habis!''
                  else data @ ''Status 1: Tisu Tersedia.'');
          data = (if pin2 = LOW then data @ (newline # ''Status 2: Tisu Habis!'')
                  else data @ (newline # ''Status 2: Tisu Tersedia.''))
      in data)"

text \<open>\<^verbatim>\<open>getWaterData\<close>, given the level read on the pin of the water sensor.\<close>

definition getWaterData :: "int \<Rightarrow> string" where
  "getWaterData pin =
     (let data = ''--- Deteksi Genangan Air ---'' @ [newline]
      in if pin = LOW then data @ ''Status: Genangan air terdeteksi.''
         else data @ ''Status: Lantai kering.'')"

text \<open>The lines of a text block: the pieces between the newline characters.\<close>

fun lines_of :: "string \<Rightarrow> string list" where
  "lines_of [] = [[]]"
| "lines_of (c # cs) =
     (if c = newline then [] # lines_of cs
      else (case lines_of cs of l # ls \<Rightarrow> (c # l) # ls | [] \<Rightarrow> [[c]]))"

text \<open>One line of the soap block: label, distance and status.\<close>

definition soap_line :: "string \<Rightarrow> int \<Rightarrow> string" where
  "soap_line label d = label @ String_long d @ '' cm | Status: '' @ (if 10 < d then ''Habis'' else ''Aman'')"

section \<open>The calibration as the specification words it\<close>

text \<open>
  These follow the specification, not the code; \<open>rs k\<close> is the derived resistance of
  sample \<open>k\<close>. \<open>frac_change\<close> is the fractional change from the previous resistance;
  \<open>stability rs k\<close> is the stability counter once sample \<open>k\<close> is processed;
  \<open>samples_taken\<close> is one more than the first index at which the counter reaches 5 and
  the whole budget of 30 otherwise; \<open>mean_first rs n\<close> is the mean of the first \<open>n\<close>
  resistances, summed in the order of sampling. The arithmetic is that of \<^verbatim>\<open>float\<close>.
\<close>

definition frac_change :: "fval \<Rightarrow> fval \<Rightarrow> fval" where
  "frac_change r prev = f_div (f_abs (f_sub r prev)) prev"

primrec stability :: "(nat \<Rightarrow> fval) \<Rightarrow> nat \<Rightarrow> nat" where
  "stability rs 0 = 0"
| "stability rs (Suc k) =
     (if f_lt (frac_change (rs (Suc k)) (rs k)) (f64 0.02) then stability rs k + 1 else 0)"

definition samples_taken :: "(nat \<Rightarrow> fval) \<Rightarrow> nat" where
  "samples_taken rs =
     (case find (\<lambda>k. 5 \<le> stability rs k) [0..<30] of Some k \<Rightarrow> k + 1 | None \<Rightarrow> 30)"

definition sum_first :: "(nat \<Rightarrow> fval) \<Rightarrow> nat \<Rightarrow> fval" where
  "sum_first rs n = foldl f_add (Fin 0) (map rs [0..<n])"

definition mean_first :: "(nat \<Rightarrow> fval) \<Rightarrow> nat \<Rightarrow> fval" where
  "mean_first rs n = f_div (sum_first rs n) (f32 (real n))"

text \<open>The resistances that a calibration entered in state \<open>s\<close> derives from the stream.\<close>

definition Rs_from :: "(nat \<Rightarrow> int) \<Rightarrow> amonia_state \<Rightarrow> nat \<Rightarrow> fval" where
  "Rs_from adc s k = sensor_Rs (adc (adcReads s + k))"

section \<open>Properties of the rounding\<close>

lemma round_even_of_int [simp]: "round_even (of_int m) = m"
  by (simp add: round_even_def)

lemma round_even_bounds: "\<lfloor>x\<rfloor> \<le> round_even x \<and> round_even x \<le> \<lfloor>x\<rfloor> + 1"
  by (simp add: round_even_def Let_def)

lemma round_even_mono: "x \<le> y \<Longrightarrow> round_even x \<le> round_even y"
proof -
  assume le: "x \<le> y"
  then have fl: "\<lfloor>x\<rfloor> \<le> \<lfloor>y\<rfloor>" by (rule floor_mono)
  show ?thesis
  proof (cases "\<lfloor>x\<rfloor> = \<lfloor>y\<rfloor>")
    case True
    then have "x - of_int \<lfloor>x\<rfloor> \<le> y - of_int \<lfloor>y\<rfloor>" using le by simp
    then show ?thesis using True by (auto simp: round_even_def Let_def)
  next
    case False
    with fl have "\<lfloor>x\<rfloor> + 1 \<le> \<lfloor>y\<rfloor>" by simp
    with round_even_bounds [of x] round_even_bounds [of y] show ?thesis by linarith
  qed
qed

lemma round_even_le: "x \<le> of_int m \<Longrightarrow> round_even x \<le> m"
  using round_even_mono [of x "of_int m"] by simp

lemma round_even_ge: "of_int m \<le> x \<Longrightarrow> m \<le> round_even x"
  using round_even_mono [of "of_int m" x] by simp

lemma round_even_uminus: "round_even (- x) = - round_even x"
proof (cases "x = of_int \<lfloor>x\<rfloor>")
  case True
  then have "round_even (- of_int \<lfloor>x\<rfloor>) = - round_even (of_int \<lfloor>x\<rfloor>)"
    unfolding of_int_minus [symmetric] round_even_of_int by simp
  with True show ?thesis by simp
next
  case False
  have fl: "\<lfloor>- x\<rfloor> = - \<lfloor>x\<rfloor> - 1"
    using False by (simp add: floor_minus ceiling_altdef)
  have d: "- x - of_int \<lfloor>- x\<rfloor> = 1 - (x - of_int \<lfloor>x\<rfloor>)"
    by (simp add: fl)
  show ?thesis
    unfolding round_even_def Let_def d
    by (auto simp: fl)
qed

lemma round_even_near:
  "of_int m - 1 / 2 < t \<Longrightarrow> t < of_int m + 1 / 2 \<Longrightarrow> round_even t = m"
proof -
  assume a: "of_int m - 1 / 2 < t" "t < of_int m + 1 / 2"
  show ?thesis
  proof (cases "of_int m \<le> t")
    case True
    then have "\<lfloor>t\<rfloor> = m" using a by (intro floor_unique) auto
    then show ?thesis using a by (simp add: round_even_def Let_def)
  next
    case False
    then have "\<lfloor>t\<rfloor> = m - 1" using a by (intro floor_unique) auto
    then show ?thesis using a by (simp add: round_even_def Let_def)
  qed
qed

lemma round_even_tie_up:
  "t = of_int m - 1 / 2 \<Longrightarrow> even m \<Longrightarrow> round_even t = m"
proof -
  assume a: "t = of_int m - 1 / 2" "even m"
  have "\<lfloor>t\<rfloor> = m - 1" using a by (intro floor_unique) auto
  then show ?thesis using a by (simp add: round_even_def Let_def)
qed

lemma round_even_tie_down:
  "t = of_int m + 1 / 2 \<Longrightarrow> even m \<Longrightarrow> round_even t = m"
proof -
  assume a: "t = of_int m + 1 / 2" "even m"
  have "\<lfloor>t\<rfloor> = m" using a by (intro floor_unique) auto
  then show ?thesis using a by (simp add: round_even_def Let_def)
qed

lemma exp_search_range: "emin \<le> exp_search a emin n \<and> exp_search a emin n \<le> emin + int n"
  by (induction n) auto

lemma exp_search_eq:
  "emin \<le> e \<Longrightarrow> e \<le> emin + int n \<Longrightarrow> 2 powi e \<le> a \<Longrightarrow> a < 2 powi (e + 1)
     \<Longrightarrow> exp_search a emin n = e"
proof (induction n)
  case 0
  then show ?case by simp
next
  case (Suc n)
  show ?case
  proof (cases "e = emin + int (Suc n)")
    case True
    with Suc.prems show ?thesis by simp
  next
    case False
    with Suc.prems have lt: "e + 1 \<le> emin + int (Suc n)" by simp
    have "(2::real) powi (e + 1) \<le> 2 powi (emin + int (Suc n))"
      using lt by (intro power_int_increasing) simp_all
    with Suc.prems have "\<not> 2 powi (emin + int (Suc n)) \<le> a" by linarith
    moreover have "exp_search a emin n = e"
      using Suc.prems lt by (intro Suc.IH) simp_all
    ultimately show ?thesis by simp
  qed
qed

lemma exp_search_low: "a < 2 powi (emin + 1) \<Longrightarrow> exp_search a emin n = emin"
proof (induction n)
  case 0
  show ?case by simp
next
  case (Suc n)
  have "(2::real) powi (emin + 1) \<le> 2 powi (emin + int (Suc n))"
    by (intro power_int_increasing) simp_all
  with Suc.prems have "\<not> 2 powi (emin + int (Suc n)) \<le> a" by linarith
  with Suc show ?case by simp
qed

lemma exp_search_lower: "emin < exp_search a emin n \<Longrightarrow> 2 powi (exp_search a emin n) \<le> a"
  by (induction n) (auto split: if_splits)

lemma exp_search_upper:
  "exp_search a emin n < emin + int n \<Longrightarrow> a < 2 powi (exp_search a emin n + 1)"
proof (induction n)
  case 0
  then show ?case by simp
next
  case (Suc n)
  show ?case
  proof (cases "2 powi (emin + int (Suc n)) \<le> a")
    case True
    with Suc.prems show ?thesis by simp
  next
    case False
    then have e: "exp_search a emin (Suc n) = exp_search a emin n" by simp
    show ?thesis
    proof (cases "exp_search a emin n < emin + int n")
      case True
      with Suc.IH e show ?thesis by simp
    next
      case False
      with exp_search_range [of emin a n] have "exp_search a emin n = emin + int n" by simp
      moreover have "emin + int (Suc n) = emin + int n + 1" by simp
      ultimately show ?thesis
        using e \<open>\<not> 2 powi (emin + int (Suc n)) \<le> a\<close> by (simp only: not_le)
    qed
  qed
qed

lemma exp_search_mono: "a \<le> b \<Longrightarrow> exp_search a emin n \<le> exp_search b emin n"
proof (induction n)
  case 0
  show ?case by simp
next
  case (Suc n)
  then show ?case
    using exp_search_range [of emin a n] by auto
qed

lemma grid_round_at:
  assumes "emin \<le> e" "e \<le> emax" "2 powi e \<le> \<bar>x\<bar> \<or> e = emin" "\<bar>x\<bar> < 2 powi (e + 1)"
  shows "grid_round p emin emax x =
           of_int (round_even (x / 2 powi (e - int p + 1))) * 2 powi (e - int p + 1)"
proof -
  have "exp_search \<bar>x\<bar> emin (nat (emax - emin)) = e"
  proof (cases "2 powi e \<le> \<bar>x\<bar>")
    case True
    with assms show ?thesis by (intro exp_search_eq) simp_all
  next
    case False
    with assms(3) have "e = emin" by simp
    with assms(4) show ?thesis by (simp add: exp_search_low)
  qed
  then show ?thesis by (simp add: grid_round_def Let_def)
qed

lemma two_powi_less_D: "(2::real) powi a < 2 powi b \<Longrightarrow> a < b"
proof (rule ccontr)
  assume lt: "(2::real) powi a < 2 powi b" and "\<not> a < b"
  then have "(2::real) powi b \<le> 2 powi a"
    by (intro power_int_increasing) simp_all
  with lt show False by simp
qed

lemma grid_round_uminus: "grid_round p emin emax (- x) = - grid_round p emin emax x"
  by (simp add: grid_round_def Let_def round_even_uminus)

lemma grid_round_nonneg: "0 \<le> x \<Longrightarrow> 0 \<le> grid_round p emin emax x"
proof -
  assume "0 \<le> x"
  then have "0 \<le> x / 2 powi (exp_search \<bar>x\<bar> emin (nat (emax - emin)) - int p + 1)"
    by simp
  then have "of_int 0 \<le> x / 2 powi (exp_search \<bar>x\<bar> emin (nat (emax - emin)) - int p + 1)"
    by simp
  then have "0 \<le> round_even (x / 2 powi (exp_search \<bar>x\<bar> emin (nat (emax - emin)) - int p + 1))"
    by (rule round_even_ge)
  then show ?thesis by (simp add: grid_round_def Let_def)
qed

lemma grid_round_mono_nonneg:
  assumes "0 \<le> x" "x \<le> y" "emin \<le> emax" "0 < p"
  shows "grid_round p emin emax x \<le> grid_round p emin emax y"
proof -
  define n where "n = nat (emax - emin)"
  define ex where "ex = exp_search \<bar>x\<bar> emin n"
  define ey where "ey = exp_search \<bar>y\<bar> emin n"
  have gx: "grid_round p emin emax x = of_int (round_even (x / 2 powi (ex - int p + 1))) * 2 powi (ex - int p + 1)"
    by (simp add: grid_round_def Let_def ex_def n_def)
  have gy: "grid_round p emin emax y = of_int (round_even (y / 2 powi (ey - int p + 1))) * 2 powi (ey - int p + 1)"
    by (simp add: grid_round_def Let_def ey_def n_def)
  have le: "ex \<le> ey"
    unfolding ex_def ey_def using assms(1,2) by (intro exp_search_mono) simp
  show ?thesis
  proof (cases "ex = ey")
    case True
    have "x / 2 powi (ey - int p + 1) \<le> y / 2 powi (ey - int p + 1)"
      using assms(2) by (simp add: divide_right_mono)
    then have "round_even (x / 2 powi (ey - int p + 1)) \<le> round_even (y / 2 powi (ey - int p + 1))"
      by (rule round_even_mono)
    then show ?thesis
      unfolding gx gy True by (simp add: mult_right_mono)
  next
    case False
    with le have lt: "ex < ey" by simp
    have rng: "emin \<le> ex" "ey \<le> emin + int n"
      using exp_search_range [of emin "\<bar>x\<bar>" n] exp_search_range [of emin "\<bar>y\<bar>" n]
      by (simp_all add: ex_def ey_def)
    have xup: "\<bar>x\<bar> < 2 powi (ex + 1)"
      unfolding ex_def using lt rng by (intro exp_search_upper) (simp add: ex_def [symmetric])
    have ylo: "2 powi ey \<le> \<bar>y\<bar>"
      unfolding ey_def using lt rng by (intro exp_search_lower) (simp add: ey_def [symmetric])
    have ux: "(2::real) powi (ex + 1) = of_int (2 ^ p) * 2 powi (ex - int p + 1)"
    proof -
      have "(2::real) powi (ex + 1) = 2 powi (int p + (ex - int p + 1))" by simp
      also have "\<dots> = 2 powi (int p) * 2 powi (ex - int p + 1)"
        by (rule power_int_add) simp
      finally show ?thesis by simp
    qed
    have uy: "(2::real) powi ey = of_int (2 ^ (p - 1)) * 2 powi (ey - int p + 1)"
    proof -
      have "(2::real) powi ey = 2 powi (int (p - 1) + (ey - int p + 1))"
        using assms(4) by (simp add: of_nat_diff)
      also have "\<dots> = 2 powi (int (p - 1)) * 2 powi (ey - int p + 1)"
        by (rule power_int_add) simp
      finally show ?thesis by simp
    qed
    have "x / 2 powi (ex - int p + 1) \<le> of_int (2 ^ p)"
      using xup assms(1) unfolding ux by (simp add: field_simps)
    then have "round_even (x / 2 powi (ex - int p + 1)) \<le> 2 ^ p"
      by (rule round_even_le)
    then have "of_int (round_even (x / 2 powi (ex - int p + 1))) * 2 powi (ex - int p + 1)
        \<le> of_int (2 ^ p) * (2::real) powi (ex - int p + 1)"
      by (intro mult_right_mono) (simp_all del: of_int_power add: of_int_le_iff)
    then have a: "grid_round p emin emax x \<le> 2 powi (ex + 1)"
      unfolding gx ux .
    have "of_int (2 ^ (p - 1)) \<le> y / 2 powi (ey - int p + 1)"
      using ylo assms(1,2) unfolding uy by (simp add: field_simps)
    then have "2 ^ (p - 1) \<le> round_even (y / 2 powi (ey - int p + 1))"
      by (rule round_even_ge)
    then have "of_int (2 ^ (p - 1)) * (2::real) powi (ey - int p + 1)
        \<le> of_int (round_even (y / 2 powi (ey - int p + 1))) * 2 powi (ey - int p + 1)"
      by (intro mult_right_mono) (simp_all del: of_int_power add: of_int_le_iff)
    then have b: "2 powi ey \<le> grid_round p emin emax y"
      unfolding gy uy .
    have "(2::real) powi (ex + 1) \<le> 2 powi ey"
      using lt by (intro power_int_increasing) simp_all
    with a b show ?thesis by linarith
  qed
qed

lemma grid_round_mono:
  assumes "x \<le> y" "emin \<le> emax" "0 < p"
  shows "grid_round p emin emax x \<le> grid_round p emin emax y"
proof (cases "0 \<le> x")
  case True
  with assms show ?thesis by (intro grid_round_mono_nonneg)
next
  case xneg: False
  show ?thesis
  proof (cases "0 \<le> y")
    case True
    have "grid_round p emin emax x = - grid_round p emin emax (- x)"
      by (simp add: grid_round_uminus)
    moreover have "0 \<le> grid_round p emin emax (- x)"
      using xneg by (intro grid_round_nonneg) simp
    moreover have "0 \<le> grid_round p emin emax y"
      using True by (rule grid_round_nonneg)
    ultimately show ?thesis by linarith
  next
    case False
    have "grid_round p emin emax (- y) \<le> grid_round p emin emax (- x)"
      using assms False by (intro grid_round_mono_nonneg) simp_all
    then show ?thesis by (simp add: grid_round_uminus)
  qed
qed

lemma grid_round_exact:
  assumes x: "x = of_int m * 2 powi k" and m: "\<bar>m\<bar> < 2 ^ p" and k: "emin - int p + 1 \<le> k"
  shows "grid_round p emin emax x = x"
proof -
  define e where "e = exp_search \<bar>x\<bar> emin (nat (emax - emin))"
  have ek: "e - int p + 1 \<le> k"
  proof (cases "emin < e")
    case True
    then have "2 powi e \<le> \<bar>x\<bar>" unfolding e_def by (rule exp_search_lower)
    also have "\<bar>x\<bar> = of_int \<bar>m\<bar> * 2 powi k" by (simp add: x abs_mult)
    also have "\<dots> < of_int (2 ^ p) * 2 powi k"
      using m by (intro mult_strict_right_mono) (simp_all del: of_int_power add: of_int_less_iff)
    also have "\<dots> = 2 powi (int p + k)"
      by (simp add: power_int_add)
    finally have "e < int p + k"
      by (rule two_powi_less_D)
    then show ?thesis by simp
  next
    case False
    with exp_search_range [of emin "\<bar>x\<bar>" "nat (emax - emin)"] have "e = emin"
      by (simp add: e_def)
    with k show ?thesis by simp
  qed
  define j where "j = nat (k - (e - int p + 1))"
  have kj: "k = int j + (e - int p + 1)" using ek by (simp add: j_def)
  have "(2::real) powi k = 2 powi (int j) * 2 powi (e - int p + 1)"
    unfolding kj by (rule power_int_add) simp
  then have "x / 2 powi (e - int p + 1) = of_int (m * 2 ^ j)"
    by (simp add: x)
  then have "round_even (x / 2 powi (e - int p + 1)) = m * 2 ^ j"
    by (simp only: round_even_of_int)
  then have "grid_round p emin emax x = of_int (m * 2 ^ j) * 2 powi (e - int p + 1)"
    by (simp add: grid_round_def Let_def e_def)
  also have "\<dots> = x"
    using \<open>x / 2 powi (e - int p + 1) = of_int (m * 2 ^ j)\<close> by (simp add: field_simps)
  finally show ?thesis .
qed

lemma fl_round_near:
  assumes "emin \<le> e" "e \<le> emax" "2 powi e \<le> \<bar>x\<bar> \<or> e = emin" "\<bar>x\<bar> < 2 powi (e + 1)"
    and "of_int m - 1 / 2 < x / 2 powi (e - int p + 1)"
    and "x / 2 powi (e - int p + 1) < of_int m + 1 / 2"
    and "y = of_int m * 2 powi (e - int p + 1)" and "\<bar>y\<bar> < 2 powi (emax + 1)"
  shows "fl_round p emin emax x = Fin y"
proof -
  have "round_even (x / 2 powi (e - int p + 1)) = m"
    using assms(5,6) by (rule round_even_near)
  then have "grid_round p emin emax x = y"
    using grid_round_at [OF assms(1-4), of p] assms(7) by simp
  then show ?thesis using assms(8) by (simp add: fl_round_def)
qed

lemma fl_round_tie_down:
  assumes "emin \<le> e" "e \<le> emax" "2 powi e \<le> \<bar>x\<bar> \<or> e = emin" "\<bar>x\<bar> < 2 powi (e + 1)"
    and "x / 2 powi (e - int p + 1) = of_int m + 1 / 2" and "even m"
    and "y = of_int m * 2 powi (e - int p + 1)" and "\<bar>y\<bar> < 2 powi (emax + 1)"
  shows "fl_round p emin emax x = Fin y"
proof -
  have "round_even (x / 2 powi (e - int p + 1)) = m"
    using assms(5,6) by (rule round_even_tie_down)
  then have "grid_round p emin emax x = y"
    using grid_round_at [OF assms(1-4), of p] assms(7) by simp
  then show ?thesis using assms(8) by (simp add: fl_round_def)
qed

lemma fl_round_tie_up:
  assumes "emin \<le> e" "e \<le> emax" "2 powi e \<le> \<bar>x\<bar> \<or> e = emin" "\<bar>x\<bar> < 2 powi (e + 1)"
    and "x / 2 powi (e - int p + 1) = of_int m - 1 / 2" and "even m"
    and "y = of_int m * 2 powi (e - int p + 1)" and "\<bar>y\<bar> < 2 powi (emax + 1)"
  shows "fl_round p emin emax x = Fin y"
proof -
  have "round_even (x / 2 powi (e - int p + 1)) = m"
    using assms(5,6) by (rule round_even_tie_up)
  then have "grid_round p emin emax x = y"
    using grid_round_at [OF assms(1-4), of p] assms(7) by simp
  then show ?thesis using assms(8) by (simp add: fl_round_def)
qed

lemma f32_tie_down:
  assumes "- 126 \<le> e" "e \<le> 127" "2 powi e \<le> \<bar>x\<bar> \<or> e = - 126" "\<bar>x\<bar> < 2 powi (e + 1)"
    and "x / 2 powi (e - 23) = of_int m + 1 / 2" and "even m"
    and "y = of_int m * 2 powi (e - 23)" and "\<bar>y\<bar> < 2 powi 128"
  shows "f32 x = Fin y"
  unfolding f32_def
  by (rule fl_round_tie_down [where e = e and m = m]) (use assms in simp_all)

lemma f32_tie_up:
  assumes "- 126 \<le> e" "e \<le> 127" "2 powi e \<le> \<bar>x\<bar> \<or> e = - 126" "\<bar>x\<bar> < 2 powi (e + 1)"
    and "x / 2 powi (e - 23) = of_int m - 1 / 2" and "even m"
    and "y = of_int m * 2 powi (e - 23)" and "\<bar>y\<bar> < 2 powi 128"
  shows "f32 x = Fin y"
  unfolding f32_def
  by (rule fl_round_tie_up [where e = e and m = m]) (use assms in simp_all)

lemma f64_tie_down:
  assumes "- 1022 \<le> e" "e \<le> 1023" "2 powi e \<le> \<bar>x\<bar> \<or> e = - 1022" "\<bar>x\<bar> < 2 powi (e + 1)"
    and "x / 2 powi (e - 52) = of_int m + 1 / 2" and "even m"
    and "y = of_int m * 2 powi (e - 52)" and "\<bar>y\<bar> < 2 powi 1024"
  shows "f64 x = Fin y"
  unfolding f64_def
  by (rule fl_round_tie_down [where e = e and m = m]) (use assms in simp_all)

lemma f64_tie_up:
  assumes "- 1022 \<le> e" "e \<le> 1023" "2 powi e \<le> \<bar>x\<bar> \<or> e = - 1022" "\<bar>x\<bar> < 2 powi (e + 1)"
    and "x / 2 powi (e - 52) = of_int m - 1 / 2" and "even m"
    and "y = of_int m * 2 powi (e - 52)" and "\<bar>y\<bar> < 2 powi 1024"
  shows "f64 x = Fin y"
  unfolding f64_def
  by (rule fl_round_tie_up [where e = e and m = m]) (use assms in simp_all)

lemma f32_near:
  assumes "- 126 \<le> e" "e \<le> 127" "2 powi e \<le> \<bar>x\<bar> \<or> e = - 126" "\<bar>x\<bar> < 2 powi (e + 1)"
    and "of_int m - 1 / 2 < x / 2 powi (e - 23)"
    and "x / 2 powi (e - 23) < of_int m + 1 / 2"
    and "y = of_int m * 2 powi (e - 23)" and "\<bar>y\<bar> < 2 powi 128"
  shows "f32 x = Fin y"
  unfolding f32_def
  by (rule fl_round_near [where e = e and m = m]) (use assms in simp_all)

lemma f64_near:
  assumes "- 1022 \<le> e" "e \<le> 1023" "2 powi e \<le> \<bar>x\<bar> \<or> e = - 1022" "\<bar>x\<bar> < 2 powi (e + 1)"
    and "of_int m - 1 / 2 < x / 2 powi (e - 52)"
    and "x / 2 powi (e - 52) < of_int m + 1 / 2"
    and "y = of_int m * 2 powi (e - 52)" and "\<bar>y\<bar> < 2 powi 1024"
  shows "f64 x = Fin y"
  unfolding f64_def
  by (rule fl_round_near [where e = e and m = m]) (use assms in simp_all)

lemma fl_round_exact:
  assumes "x = of_int m * 2 powi k" "\<bar>m\<bar> < 2 ^ p" "emin - int p + 1 \<le> k"
    and "\<bar>x\<bar> < 2 powi (emax + 1)"
  shows "fl_round p emin emax x = Fin x"
  using grid_round_exact [OF assms(1-3), of emax] assms(4) by (simp add: fl_round_def)

lemma f32_of_int: "\<bar>m\<bar> < 2 ^ 24 \<Longrightarrow> f32 (of_int m) = Fin (of_int m)"
proof -
  assume m: "\<bar>m\<bar> < 2 ^ 24"
  then have "\<bar>real_of_int m\<bar> < 2 ^ 24"
    by (metis of_int_abs of_int_less_iff of_int_numeral of_int_power)
  then have "\<bar>real_of_int m\<bar> < 2 powi 128" by simp
  then show ?thesis
    unfolding f32_def using m
    by (intro fl_round_exact [where m = m and k = 0]) simp_all
qed

lemma f32_of_nat: "n < 2 ^ 24 \<Longrightarrow> f32 (real n) = Fin (real n)"
  using f32_of_int [of "int n"] by simp

lemma f32_zero [simp]: "f32 0 = Fin 0"
  using f32_of_int [of 0] by simp

lemma f32_30: "f32 30 = Fin 30"
  using f32_of_int [of 30] by simp

lemma fl_round_not_NaN [simp]: "fl_round p emin emax x \<noteq> NaN"
  by (simp add: fl_round_def Let_def)

lemma f32_not_NaN [simp]: "f32 x \<noteq> NaN"
  by (simp add: f32_def)

lemma f64_not_NaN [simp]: "f64 x \<noteq> NaN"
  by (simp add: f64_def)

lemma f_le_refl: "a \<noteq> NaN \<Longrightarrow> f_le a a"
  by (cases a) simp_all

lemma f_le_trans: "f_le a b \<Longrightarrow> f_le b c \<Longrightarrow> f_le a c"
  by (cases a; cases b; cases c) simp_all

lemma fl_round_mono:
  assumes "x \<le> y" "emin \<le> emax" "0 < p"
  shows "f_le (fl_round p emin emax x) (fl_round p emin emax y)"
proof -
  define gx where "gx = grid_round p emin emax x"
  define gy where "gy = grid_round p emin emax y"
  have g: "gx \<le> gy" unfolding gx_def gy_def using assms by (rule grid_round_mono)
  have pos: "0 \<le> gx" if "0 \<le> x" unfolding gx_def using that by (rule grid_round_nonneg)
  have posy: "0 \<le> gy" if "0 \<le> y" unfolding gy_def using that by (rule grid_round_nonneg)
  have neg: "gx \<le> 0" if "x \<le> 0"
    using grid_round_nonneg [of "- x" p emin emax] that
    by (simp add: gx_def grid_round_uminus)
  have negy: "gy \<le> 0" if "y \<le> 0"
    using grid_round_nonneg [of "- y" p emin emax] that
    by (simp add: gy_def grid_round_uminus)
  have B: "(0::real) < 2 powi (emax + 1)" by simp
  show ?thesis
  proof (cases "2 powi (emax + 1) \<le> \<bar>gx\<bar>")
    case ox: True
    show ?thesis
    proof (cases "0 < x")
      case True
      then have "0 \<le> gx" "0 < y" using pos assms(1) by simp_all
      with ox g have "2 powi (emax + 1) \<le> \<bar>gy\<bar>" by simp
      with \<open>0 < y\<close> True ox show ?thesis
        by (simp add: fl_round_def gx_def [symmetric] gy_def [symmetric])
    next
      case False
      with ox show ?thesis
        by (simp add: fl_round_def Let_def gx_def [symmetric] gy_def [symmetric])
    qed
  next
    case nx: False
    show ?thesis
    proof (cases "2 powi (emax + 1) \<le> \<bar>gy\<bar>")
      case oy: True
      have "0 < y"
      proof (rule ccontr)
        assume "\<not> 0 < y"
        then have "y \<le> 0" by simp
        then have "gy \<le> 0" by (rule negy)
        with oy have "gy \<le> - (2 powi (emax + 1))" by simp
        with g have "gx \<le> - (2 powi (emax + 1))" by simp
        with B have "2 powi (emax + 1) \<le> \<bar>gx\<bar>" by simp
        with nx show False by simp
      qed
      with nx oy show ?thesis
        by (simp add: fl_round_def Let_def gx_def [symmetric] gy_def [symmetric])
    next
      case False
      with nx g show ?thesis
        by (simp add: fl_round_def Let_def gx_def [symmetric] gy_def [symmetric])
    qed
  qed
qed

lemma f32_mono: "x \<le> y \<Longrightarrow> f_le (f32 x) (f32 y)"
  unfolding f32_def by (rule fl_round_mono) simp_all

lemma f64_mono: "x \<le> y \<Longrightarrow> f_le (f64 x) (f64 y)"
  unfolding f64_def by (rule fl_round_mono) simp_all

lemma to_f32_mono: "f_le a b \<Longrightarrow> f_le (to_f32 a) (to_f32 b)"
proof (cases a; cases b)
  fix x y assume "a = Fin x" "b = Fin y" "f_le a b"
  then show ?thesis by (simp add: f32_mono)
next
  fix x assume a: "a = Fin x" "b = PInf"
  show ?thesis using a f32_not_NaN [of x] by (cases "f32 x") simp_all
next
  fix y assume a: "a = NInf" "b = Fin y"
  show ?thesis using a f32_not_NaN [of y] by (cases "f32 y") simp_all
qed simp_all

lemma to_f32_not_NaN: "a \<noteq> NaN \<Longrightarrow> to_f32 a \<noteq> NaN"
  by (cases a) simp_all

lemma f_add_Fin: "f_add (Fin x) (Fin y) = f32 (x + y)"
  by (simp add: f_add_def)

lemma f_sub_Fin: "f_sub (Fin x) (Fin y) = f32 (x - y)"
  by (simp add: f_sub_def)

lemma f_mul_Fin: "f_mul (Fin x) (Fin y) = f32 (x * y)"
  by (simp add: f_mul_def)

lemma f_div_Fin: "y \<noteq> 0 \<Longrightarrow> f_div (Fin x) (Fin y) = f32 (x / y)"
  by (simp add: f_div_def)

lemma d_mul_Fin: "d_mul (Fin x) (Fin y) = f64 (x * y)"
  by (simp add: d_mul_def)

lemma d_div_Fin: "y \<noteq> 0 \<Longrightarrow> d_div (Fin x) (Fin y) = f64 (x / y)"
  by (simp add: d_div_def)

section \<open>Evaluations of the float arithmetic\<close>

text \<open>
  Each rounding below is checked from the exponent and the significand of its result.
\<close>

lemma REG_INTERCEPT_val:
  "REG_INTERCEPT = Fin (- (13505659 / 16777216))"
  unfolding REG_INTERCEPT_def by (rule f32_near [where e = "- 1" and m = "- 13505659"]) simp_all

lemma REG_SLOPE_val:
  "REG_SLOPE = Fin (16684941 / 8388608)"
  unfolding REG_SLOPE_def by (rule f32_near [where e = "0" and m = "16684941"]) simp_all

lemma NH3_slope_val:
  "f32 (- 2.3447) = Fin (- (9834385 / 4194304))"
  by (rule f32_near [where e = "1" and m = "- 9834385"]) simp_all

lemma NH3_intercept_val:
  "f32 0.0670 = Fin (2248147 / 33554432)"
  by (rule f32_near [where e = "- 4" and m = "8992588"]) simp_all

lemma threshold_val:
  "f64 0.02 = Fin (5764607523034235 / 288230376151711744)"
  by (rule f64_near [where e = "- 6" and m = "5764607523034235"]) simp_all

lemma f32_NH3_slope_exact:
  "f32 (- (9834385 / 4194304)) = Fin (- (9834385 / 4194304))"
  by (rule f32_near [where e = "1" and m = "- 9834385"]) simp_all

lemma f32_NH3_intercept_exact:
  "f32 (2248147 / 33554432) = Fin (2248147 / 33554432)"
  by (rule f32_near [where e = "- 4" and m = "8992588"]) simp_all









lemma Rs_1365_a:
  "to_f64 (Fin (real_of_int 1365)) = Fin 1365"
  by (simp only: to_f64.simps) (rule f64_near [where e = "10" and m = "6003333487656960"], simp_all)

lemma Rs_1365_b:
  "d_div (Fin 1365) (Fin 4095) = Fin (6004799503160661 / 18014398509481984)"
  by (subst d_div_Fin) (simp, rule f64_near [where e = "- 2" and m = "6004799503160661"], simp_all)

lemma Rs_1365_c:
  "d_mul (Fin (6004799503160661 / 18014398509481984)) (Fin 5) = Fin (3752999689475413 / 2251799813685248)"
  by (subst d_mul_Fin) (rule f64_near [where e = "0" and m = "7505999378950826"], simp_all)

lemma Rs_1365_d:
  "to_f32 (Fin (3752999689475413 / 2251799813685248)) = Fin (13981013 / 8388608)"
  by (simp only: to_f32.simps) (rule f32_near [where e = "0" and m = "13981013"], simp_all)

lemma Rs_1365_e:
  "f_sub (Fin 5) (Fin (13981013 / 8388608)) = Fin (6990507 / 2097152)"
  by (subst f_sub_Fin) (rule f32_tie_up [where e = "1" and m = "13981014"], simp_all)

lemma Rs_1365_f:
  "f_div (Fin (6990507 / 2097152)) (Fin (13981013 / 8388608)) = Fin (8388609 / 4194304)"
  by (subst f_div_Fin) (simp, rule f32_near [where e = "1" and m = "8388609"], simp_all)

lemma Rs_1365_g:
  "f_mul (Fin (8388609 / 4194304)) (Fin 4700) = Fin (9625601 / 1024)"
  by (subst f_mul_Fin) (rule f32_near [where e = "13" and m = "9625601"], simp_all)

lemma sensor_Rs_1365:
  "sensor_Rs 1365 = Fin (9625601 / 1024)"
  by (simp only: sensor_Rs_def Let_def Vcc_def RL_def Rs_1365_a Rs_1365_b Rs_1365_c Rs_1365_d Rs_1365_e Rs_1365_f Rs_1365_g)

lemma Rs_595_a:
  "to_f64 (Fin (real_of_int 595)) = Fin 595"
  by (simp only: to_f64.simps) (rule f64_near [where e = "9" and m = "5233675348213760"], simp_all)

lemma Rs_595_b:
  "d_div (Fin 595) (Fin 4095) = Fin (5234953413011859 / 36028797018963968)"
  by (subst d_div_Fin) (simp, rule f64_near [where e = "- 3" and m = "5234953413011859"], simp_all)

lemma Rs_595_c:
  "d_mul (Fin (5234953413011859 / 36028797018963968)) (Fin 5) = Fin (817961470783103 / 1125899906842624)"
  by (subst d_mul_Fin) (rule f64_near [where e = "- 1" and m = "6543691766264824"], simp_all)

lemma Rs_595_d:
  "to_f32 (Fin (817961470783103 / 1125899906842624)) = Fin (380893 / 524288)"
  by (simp only: to_f32.simps) (rule f32_near [where e = "- 1" and m = "12188576"], simp_all)

lemma Rs_595_e:
  "f_sub (Fin 5) (Fin (380893 / 524288)) = Fin (2240547 / 524288)"
  by (subst f_sub_Fin) (rule f32_near [where e = "2" and m = "8962188"], simp_all)

lemma Rs_595_f:
  "f_div (Fin (2240547 / 524288)) (Fin (380893 / 524288)) = Fin (3084047 / 524288)"
  by (subst f_div_Fin) (simp, rule f32_near [where e = "2" and m = "12336188"], simp_all)

lemma Rs_595_g:
  "f_mul (Fin (3084047 / 524288)) (Fin 4700) = Fin (7077647 / 256)"
  by (subst f_mul_Fin) (rule f32_near [where e = "14" and m = "14155294"], simp_all)

lemma sensor_Rs_595:
  "sensor_Rs 595 = Fin (7077647 / 256)"
  by (simp only: sensor_Rs_def Let_def Vcc_def RL_def Rs_595_a Rs_595_b Rs_595_c Rs_595_d Rs_595_e Rs_595_f Rs_595_g)

lemma Rs_585_a:
  "to_f64 (Fin (real_of_int 585)) = Fin 585"
  by (simp only: to_f64.simps) (rule f64_near [where e = "9" and m = "5145714417991680"], simp_all)

lemma Rs_585_b:
  "d_div (Fin 585) (Fin 4095) = Fin (2573485501354569 / 18014398509481984)"
  by (subst d_div_Fin) (simp, rule f64_near [where e = "- 3" and m = "5146971002709138"], simp_all)

lemma Rs_585_c:
  "d_mul (Fin (2573485501354569 / 18014398509481984)) (Fin 5) = Fin (3216856876693211 / 4503599627370496)"
  by (subst d_mul_Fin) (rule f64_tie_down [where e = "- 1" and m = "6433713753386422"], simp_all)

lemma Rs_585_d:
  "to_f32 (Fin (3216856876693211 / 4503599627370496)) = Fin (5991863 / 8388608)"
  by (simp only: to_f32.simps) (rule f32_near [where e = "- 1" and m = "11983726"], simp_all)

lemma Rs_585_e:
  "f_sub (Fin 5) (Fin (5991863 / 8388608)) = Fin (4493897 / 1048576)"
  by (subst f_sub_Fin) (rule f32_near [where e = "2" and m = "8987794"], simp_all)

lemma Rs_585_f:
  "f_div (Fin (4493897 / 1048576)) (Fin (5991863 / 8388608)) = Fin (12582911 / 2097152)"
  by (subst f_div_Fin) (simp, rule f32_near [where e = "2" and m = "12582911"], simp_all)

lemma Rs_585_g:
  "f_mul (Fin (12582911 / 2097152)) (Fin 4700) = Fin (14438399 / 512)"
  by (subst f_mul_Fin) (rule f32_near [where e = "14" and m = "14438399"], simp_all)

lemma sensor_Rs_585:
  "sensor_Rs 585 = Fin (14438399 / 512)"
  by (simp only: sensor_Rs_def Let_def Vcc_def RL_def Rs_585_a Rs_585_b Rs_585_c Rs_585_d Rs_585_e Rs_585_f Rs_585_g)




lemma change_585_after_595_sub:
  "f_sub (Fin (14438399 / 512)) (Fin (7077647 / 256)) = Fin (283105 / 512)"
  by (subst f_sub_Fin) (rule f32_near [where e = "9" and m = "9059360"], simp_all)

lemma change_585_after_595_div:
  "f_div (Fin (283105 / 512)) (Fin (7077647 / 256)) = Fin (10737385 / 536870912)"
  by (subst f_div_Fin) (simp, rule f32_near [where e = "- 6" and m = "10737385"], simp_all)

lemma change_585_after_595:
  "frac_change (Fin (14438399 / 512)) (Fin (7077647 / 256)) = Fin (10737385 / 536870912)"
  by (simp only: frac_change_def change_585_after_595_sub f_abs.simps) (simp add: change_585_after_595_div)
















lemma sumC_1:
  "f_add (Fin 0) (Fin (7077647 / 256)) = Fin (7077647 / 256)"
  by (subst f_add_Fin) (rule f32_near [where e = "14" and m = "14155294"], simp_all)

lemma sumC_2:
  "f_add (Fin (7077647 / 256)) (Fin (14438399 / 512)) = Fin (7148423 / 128)"
  by (subst f_add_Fin) (rule f32_tie_down [where e = "15" and m = "14296846"], simp_all)

lemma sumC_3:
  "f_add (Fin (7148423 / 128)) (Fin (14438399 / 512)) = Fin (10758023 / 128)"
  by (subst f_add_Fin) (rule f32_near [where e = "16" and m = "10758023"], simp_all)

lemma sumC_4:
  "f_add (Fin (10758023 / 128)) (Fin (14438399 / 512)) = Fin (14367623 / 128)"
  by (subst f_add_Fin) (rule f32_near [where e = "16" and m = "14367623"], simp_all)

lemma sumC_5:
  "f_add (Fin (14367623 / 128)) (Fin (14438399 / 512)) = Fin (8988611 / 64)"
  by (subst f_add_Fin) (rule f32_near [where e = "17" and m = "8988611"], simp_all)

lemma sumC_6:
  "f_add (Fin (8988611 / 64)) (Fin (14438399 / 512)) = Fin (10793411 / 64)"
  by (subst f_add_Fin) (rule f32_near [where e = "17" and m = "10793411"], simp_all)

lemma sumC_mean:
  "f_div (Fin (10793411 / 64)) (Fin 6) = Fin (14391215 / 512)"
  by (subst f_div_Fin) (simp, rule f32_near [where e = "14" and m = "14391215"], simp_all)

lemma f32_t1:
  "f32 (9721339 / 8388608) = Fin (9721339 / 8388608)"
  by (rule f32_near [where e = "0" and m = "9721339"]) simp_all

lemma f32_t1n:
  "f32 (2430335 / 2097152) = Fin (2430335 / 2097152)"
  by (rule f32_near [where e = "0" and m = "9721340"]) simp_all



lemma score_mul_0:
  "f_mul (Fin (16684941 / 8388608)) (Fin 0) = Fin 0"
  by (subst f_mul_Fin) (rule f32_near [where e = "- 126" and m = "0"], simp_all)

lemma score_add_0:
  "f_add (Fin (- (13505659 / 16777216))) (Fin 0) = Fin (- (13505659 / 16777216))"
  by (subst f_add_Fin) (rule f32_near [where e = "- 1" and m = "- 13505659"], simp_all)

lemma likert_score_0:
  "likert_score (Fin 0) = Fin (- (13505659 / 16777216))"
  unfolding likert_score_def Let_def REG_INTERCEPT_val REG_SLOPE_val
  by (simp add: score_mul_0 score_add_0)

lemma konversiKeLikert_0:
  "konversiKeLikert (Fin 0) = 1"
  unfolding konversiKeLikert_def Let_def likert_score_0 by simp

lemma score_mul_half:
  "f_mul (Fin (16684941 / 8388608)) (Fin (1 / 2)) = Fin (16684941 / 16777216)"
  by (subst f_mul_Fin) (rule f32_near [where e = "- 1" and m = "16684941"], simp_all)

lemma score_add_half:
  "f_add (Fin (- (13505659 / 16777216))) (Fin (16684941 / 16777216)) = Fin (1589641 / 8388608)"
  by (subst f_add_Fin) (rule f32_near [where e = "- 3" and m = "12717128"], simp_all)

lemma likert_score_half:
  "likert_score (Fin (1 / 2)) = Fin (1589641 / 8388608)"
  unfolding likert_score_def Let_def REG_INTERCEPT_val REG_SLOPE_val
  by (simp add: score_mul_half score_add_half)

lemma konversiKeLikert_half:
  "konversiKeLikert (Fin (1 / 2)) = 1"
  unfolding konversiKeLikert_def Let_def likert_score_half by simp





lemma score_mul_2:
  "f_mul (Fin (16684941 / 8388608)) (Fin 2) = Fin (16684941 / 4194304)"
  by (subst f_mul_Fin) (rule f32_near [where e = "1" and m = "16684941"], simp_all)

lemma score_add_2:
  "f_add (Fin (- (13505659 / 16777216))) (Fin (16684941 / 4194304)) = Fin (6654263 / 2097152)"
  by (subst f_add_Fin) (rule f32_near [where e = "1" and m = "13308526"], simp_all)

lemma likert_score_2:
  "likert_score (Fin 2) = Fin (6654263 / 2097152)"
  unfolding likert_score_def Let_def REG_INTERCEPT_val REG_SLOPE_val
  by (simp add: score_mul_2 score_add_2)

lemma konversiKeLikert_2:
  "konversiKeLikert (Fin 2) = 3"
  unfolding konversiKeLikert_def Let_def likert_score_2 by simp

















section \<open>Properties of the ordinal scoring\<close>

lemma likert_score_Fin:
  "likert_score (Fin p) = f_add REG_INTERCEPT (f_mul REG_SLOPE (Fin (max 0 p)))"
  by (simp add: likert_score_def max_def)

lemma likert_score_clamp: "f_lt ppm (Fin 0) \<Longrightarrow> likert_score ppm = likert_score (Fin 0)"
  by (simp add: likert_score_def)

lemma e_add_mono:
  "f_le a b \<Longrightarrow> f_le (e_add (Fin c) a) (e_add (Fin c) b)"
  by (cases a; cases b) simp_all

lemma likert_score_mono:
  assumes "x \<le> y"
  shows "f_le (likert_score (Fin x)) (likert_score (Fin y))"
proof -
  have "16684941 / 8388608 * max 0 x \<le> 16684941 / 8388608 * max 0 (y::real)"
    using assms by (intro mult_left_mono) (simp_all add: max_def)
  then have "f_le (f_mul REG_SLOPE (Fin (max 0 x))) (f_mul REG_SLOPE (Fin (max 0 y)))"
    unfolding REG_SLOPE_val f_mul_Fin by (rule f32_mono)
  then have "f_le (e_add (Fin (- (13505659 / 16777216))) (f_mul REG_SLOPE (Fin (max 0 x))))
      (e_add (Fin (- (13505659 / 16777216))) (f_mul REG_SLOPE (Fin (max 0 y))))"
    by (rule e_add_mono)
  then show ?thesis
    unfolding likert_score_Fin REG_INTERCEPT_val f_add_def by (rule to_f32_mono)
qed

lemma category_mono:
  assumes "f_le s1 s2"
  shows "(if f_le s1 (Fin 1.5) then 1 else if f_le s1 (Fin 2.5) then 2 else (3::int))
     \<le> (if f_le s2 (Fin 1.5) then 1 else if f_le s2 (Fin 2.5) then 2 else 3)"
proof -
  have "f_le s1 c" if "f_le s2 c" for c
    using assms that by (rule f_le_trans)
  then show ?thesis by auto
qed

lemma konversiKeLikert_mono_Fin:
  "x \<le> y \<Longrightarrow> konversiKeLikert (Fin x) \<le> konversiKeLikert (Fin y)"
  unfolding konversiKeLikert_def Let_def by (rule category_mono) (rule likert_score_mono)

lemma likert_score_PInf: "likert_score PInf = PInf"
  by (simp add: likert_score_def REG_INTERCEPT_val REG_SLOPE_val f_add_def f_mul_def
      inf_of_sign_def)

lemma konversiKeLikert_PInf: "konversiKeLikert PInf = 3"
  by (simp add: konversiKeLikert_def likert_score_PInf)

lemma konversiKeLikert_NInf: "konversiKeLikert NInf = 1"
  using konversiKeLikert_0 by (simp add: konversiKeLikert_def likert_score_clamp)

lemma konversiKeLikert_range: "konversiKeLikert p \<in> {1, 2, 3}"
  by (simp add: konversiKeLikert_def Let_def)







text \<open>
  C9. A negative PPM input is clamped to zero before scoring: for every \<open>ppm < 0\<close>, minus
  infinity included, the score is the score of PPM 0, and so is the category.
\<close>

theorem C9_negative_clamped:
  "f_lt ppm (Fin 0) \<Longrightarrow>
     likert_score ppm = likert_score (Fin 0) \<and> konversiKeLikert ppm = konversiKeLikert (Fin 0)"
  by (simp add: konversiKeLikert_def likert_score_clamp)

theorem C9_negative_clamped_witness:
  "f_lt (Fin (- 3)) (Fin 0)
   \<and> likert_score (Fin (- 3)) = likert_score (Fin 0)
   \<and> likert_score (Fin (- 3)) = Fin (- (13505659 / 16777216))
   \<and> konversiKeLikert (Fin (- 3)) = konversiKeLikert (Fin 0)"
  using C9_negative_clamped [of "Fin (- 3)"] by (simp add: likert_score_0)

text \<open>
  C10. \<open>konversiKeLikert\<close> is monotone: \<open>p1 \<le> p2\<close> gives a category for \<open>p1\<close> that is
  at most the category for \<open>p2\<close>; and every category is 1, 2 or 3.
\<close>

theorem C10_likert_monotone_range:
  "(f_le p1 p2 \<longrightarrow> konversiKeLikert p1 \<le> konversiKeLikert p2)
   \<and> konversiKeLikert p \<in> {1, 2, 3}"
proof
  show "f_le p1 p2 \<longrightarrow> konversiKeLikert p1 \<le> konversiKeLikert p2"
  proof
    assume le: "f_le p1 p2"
    have lo: "1 \<le> konversiKeLikert q" and hi: "konversiKeLikert q \<le> 3" for q
      using konversiKeLikert_range [of q] by auto
    show "konversiKeLikert p1 \<le> konversiKeLikert p2"
    proof (cases p1)
      case (Fin x)
      show ?thesis
      proof (cases p2)
        case (Fin y)
        with \<open>p1 = Fin x\<close> le show ?thesis
          by (simp add: konversiKeLikert_mono_Fin)
      next
        case PInf
        then show ?thesis using hi [of p1] by (simp add: konversiKeLikert_PInf)
      next
        case NInf
        with \<open>p1 = Fin x\<close> le show ?thesis by simp
      next
        case NaN
        with \<open>p1 = Fin x\<close> le show ?thesis by simp
      qed
    next
      case PInf
      with le have "p2 = PInf" by (cases p2) simp_all
      with PInf show ?thesis by simp
    next
      case NInf
      then show ?thesis using lo [of p2] by (simp add: konversiKeLikert_NInf)
    next
      case NaN
      with le show ?thesis by simp
    qed
  qed
  show "konversiKeLikert p \<in> {1, 2, 3}"
    by (rule konversiKeLikert_range)
qed

theorem C10_likert_monotone_range_witness:
  "f_le (Fin (1 / 2)) (Fin 2) \<and> konversiKeLikert (Fin (1 / 2)) \<le> konversiKeLikert (Fin 2)
   \<and> konversiKeLikert (Fin (1 / 2)) = 1 \<and> konversiKeLikert (Fin 2) = 3"
  using C10_likert_monotone_range [of "Fin (1 / 2)" "Fin 2" "Fin 2"]
  by (simp add: konversiKeLikert_half konversiKeLikert_2)

section \<open>Properties of the calibration\<close>

lemma sum_first_0: "sum_first rs 0 = Fin 0"
  by (simp add: sum_first_def)

lemma sum_first_Suc: "sum_first rs (Suc n) = f_add (sum_first rs n) (rs n)"
  by (simp add: sum_first_def)

lemma samples_taken_early:
  assumes "k < 30" "5 \<le> stability rs k" "\<forall>j<k. stability rs j < 5"
  shows "samples_taken rs = k + 1"
proof -
  have "find (\<lambda>k. 5 \<le> stability rs k) [0..<30] = Some k"
    unfolding find_Some_iff using assms
    by (intro exI [of _ k]) (auto simp: not_le)
  then show ?thesis by (simp add: samples_taken_def)
qed

lemma samples_taken_full:
  assumes "\<forall>j<30. stability rs j < 5"
  shows "samples_taken rs = 30"
proof -
  have "find (\<lambda>k. 5 \<le> stability rs k) [0..<30] = None"
    unfolding find_None_iff using assms by (auto simp: not_le)
  then show ?thesis by (simp add: samples_taken_def)
qed

lemma kalibrasi_loop_exit:
  "\<not> i < 30 \<Longrightarrow>
     kalibrasi_loop adc tdone i rsLama totalRs stabilCount s =
       kalibrasi_selesai (f_div totalRs (f32 30)) tdone s"
  by (subst kalibrasi_loop.simps) (simp add: maxPembacaan_def)

lemma kalibrasi_loop_first:
  "kalibrasi_loop adc tdone 0 rsLama totalRs stabilCount s =
     (if 5 \<le> stabilCount
      then kalibrasi_selesai (f_div (f_add totalRs (sensor_Rs (adc (adcReads s)))) (f32 1))
             tdone (s\<lparr>adcReads := adcReads s + 1\<rparr>)
      else kalibrasi_loop adc tdone 1 (sensor_Rs (adc (adcReads s)))
             (f_add totalRs (sensor_Rs (adc (adcReads s)))) stabilCount
             (s\<lparr>adcReads := adcReads s + 1\<rparr>))"
  by (subst kalibrasi_loop.simps) (simp add: maxPembacaan_def Let_def)

lemma kalibrasi_loop_next:
  assumes "0 < i" "i < 30"
  shows "kalibrasi_loop adc tdone i rsLama totalRs stabilCount s =
     (let Rs = sensor_Rs (adc (adcReads s));
          c = (if f_lt (frac_change Rs rsLama) (f64 0.02) then stabilCount + 1 else 0)
      in if 5 \<le> c
         then kalibrasi_selesai (f_div (f_add totalRs Rs) (f32 (real (i + 1))))
             tdone (s\<lparr>adcReads := adcReads s + 1\<rparr>)
         else kalibrasi_loop adc tdone (i + 1) Rs (f_add totalRs Rs) c
             (s\<lparr>adcReads := adcReads s + 1\<rparr>))"
  using assms
  by (subst kalibrasi_loop.simps) (simp add: maxPembacaan_def Let_def frac_change_def)

lemma kalibrasi_loop_spec:
  assumes rs: "\<And>k. rs k = sensor_Rs (adc (n0 + k))"
    and "i \<le> 30"
    and "adcReads s = n0 + i"
    and "totalRs = sum_first rs i"
    and "0 < i \<Longrightarrow> rsLama = rs (i - 1)"
    and "0 < i \<Longrightarrow> stabilCount = stability rs (i - 1)"
    and "i = 0 \<Longrightarrow> stabilCount = 0"
    and "\<forall>j<i. stability rs j < 5"
  shows "kalibrasi_loop adc tdone i rsLama totalRs stabilCount s =
           kalibrasi_selesai (mean_first rs (samples_taken rs)) tdone
             (s\<lparr>adcReads := n0 + samples_taken rs\<rparr>)"
  using assms(2-)
proof (induction "30 - i" arbitrary: i rsLama totalRs stabilCount s)
  case 0
  then have i: "i = 30" by simp
  have n: "samples_taken rs = 30"
    using "0.prems"(7) i by (intro samples_taken_full) simp
  have s: "s\<lparr>adcReads := n0 + 30\<rparr> = s"
    using "0.prems"(2) i by simp
  show ?case
    unfolding n s using "0.prems"(3) i
    by (simp add: kalibrasi_loop_exit mean_first_def)
next
  case (Suc d)
  then have lt: "i < 30" by simp
  define Rs where "Rs = sensor_Rs (adc (adcReads s))"
  have Rs: "Rs = rs i" by (simp add: Rs_def rs Suc.prems(2))
  define c where "c = (if 0 < i then
      (if f_lt (frac_change Rs rsLama) (f64 0.02) then stabilCount + 1 else 0)
      else stabilCount)"
  have c: "c = stability rs i"
  proof (cases i)
    case 0
    then show ?thesis using Suc.prems(6) by (simp add: c_def)
  next
    case (Suc m)
    then show ?thesis using Suc.prems(4,5) by (simp add: c_def Rs)
  qed
  have tot: "f_add totalRs Rs = sum_first rs (Suc i)"
    by (simp add: sum_first_Suc Suc.prems(3) Rs)
  have unfold: "kalibrasi_loop adc tdone i rsLama totalRs stabilCount s =
      (if 5 \<le> c
       then kalibrasi_selesai (f_div (f_add totalRs Rs) (f32 (real (i + 1))))
             tdone (s\<lparr>adcReads := adcReads s + 1\<rparr>)
       else kalibrasi_loop adc tdone (i + 1) Rs (f_add totalRs Rs) c
             (s\<lparr>adcReads := adcReads s + 1\<rparr>))"
  proof (cases i)
    case 0
    then show ?thesis
      using Suc.prems(6) by (simp add: kalibrasi_loop_first c_def Rs_def)
  next
    case (Suc m)
    then have "0 < i" by simp
    then show ?thesis
      using lt by (simp add: kalibrasi_loop_next c_def Rs_def Let_def)
  qed
  show ?case
  proof (cases "5 \<le> c")
    case True
    have n: "samples_taken rs = i + 1"
      using lt True Suc.prems(7) by (intro samples_taken_early) (simp_all add: c)
    show ?thesis
      unfolding unfold n using True
      by (simp add: tot mean_first_def Suc.prems(2))
  next
    case False
    have inv: "\<forall>j<i + 1. stability rs j < 5"
      using Suc.prems(7) False c by (auto simp: less_Suc_eq)
    have "kalibrasi_loop adc tdone (i + 1) Rs (f_add totalRs Rs) c
            (s\<lparr>adcReads := adcReads s + 1\<rparr>) =
          kalibrasi_selesai (mean_first rs (samples_taken rs)) tdone
            (s\<lparr>adcReads := adcReads s + 1\<rparr>\<lparr>adcReads := n0 + samples_taken rs\<rparr>)"
    proof (rule Suc.hyps(1))
      show "d = 30 - (i + 1)" using Suc.hyps(2) by simp
      show "i + 1 \<le> 30" using lt by simp
      show "adcReads (s\<lparr>adcReads := adcReads s + 1\<rparr>) = n0 + (i + 1)"
        using Suc.prems(2) by simp
      show "f_add totalRs Rs = sum_first rs (i + 1)" using tot by simp
      show "Rs = rs (i + 1 - 1)" using Rs by simp
      show "c = stability rs (i + 1 - 1)" using c by simp
      show "c = 0" if "i + 1 = 0" using that by simp
      show "\<forall>j<i + 1. stability rs j < 5" by (rule inv)
    qed
    then show ?thesis
      unfolding unfold using False by simp
  qed
qed

lemma adcReads_displayStatus [simp]: "adcReads (displayStatus st s) = adcReads s"
  by (simp add: displayStatus_def)

lemma kalibrasiAmoniaSensor_spec:
  "kalibrasiAmoniaSensor adc tdone s =
     kalibrasi_selesai (mean_first (Rs_from adc s) (samples_taken (Rs_from adc s))) tdone
       ((displayStatus ''Kalibrasi...'' s)
          \<lparr>adcReads := adcReads s + samples_taken (Rs_from adc s)\<rparr>)"
  unfolding kalibrasiAmoniaSensor_def
  by (rule kalibrasi_loop_spec [where ?n0.0 = "adcReads s"])
     (simp_all add: Rs_from_def sum_first_0)

lemma stability_le: "stability rs k \<le> k"
  by (induction k) auto

lemma samples_taken_bounds: "6 \<le> samples_taken rs \<and> samples_taken rs \<le> 30"
proof (cases "find (\<lambda>k. 5 \<le> stability rs k) [0..<30]")
  case None
  then show ?thesis by (simp add: samples_taken_def)
next
  case (Some k)
  then have "k < 30" "5 \<le> stability rs k"
    by (auto simp: find_Some_iff)
  moreover have "stability rs k \<le> k" by (rule stability_le)
  ultimately show ?thesis using Some by (simp add: samples_taken_def)
qed

lemma samples_taken_le:
  assumes "k < 30" "5 \<le> stability rs k"
  shows "samples_taken rs \<le> k + 1"
proof -
  from assms obtain j where j: "find (\<lambda>k. 5 \<le> stability rs k) [0..<30] = Some j"
    by (cases "find (\<lambda>k. 5 \<le> stability rs k) [0..<30]") (auto simp: find_None_iff)
  then have first: "\<forall>i<j. stability rs i < 5"
    by (auto simp: find_Some_iff not_le)
  have "j \<le> k"
  proof (rule ccontr)
    assume "\<not> j \<le> k"
    then have "stability rs k < 5" using first by simp
    with assms(2) show False by simp
  qed
  with j show ?thesis by (simp add: samples_taken_def)
qed

lemma frac_change_same: "V \<noteq> 0 \<Longrightarrow> frac_change (Fin V) (Fin V) = Fin 0"
  by (simp add: frac_change_def f_sub_Fin f_div_Fin)

lemma stable_step: "V \<noteq> 0 \<Longrightarrow> f_lt (frac_change (Fin V) (Fin V)) (f64 0.02)"
  unfolding threshold_val by (simp add: frac_change_same)

lemma stability_stable_ge:
  assumes "\<And>k. m \<le> k \<Longrightarrow> rs k = Fin V" "V \<noteq> 0"
  shows "j \<le> stability rs (m + j)"
proof (induction j)
  case 0
  show ?case by simp
next
  case (Suc j)
  have "rs (m + j) = Fin V" "rs (Suc (m + j)) = Fin V"
    by (simp_all add: assms(1))
  then have "stability rs (Suc (m + j)) = stability rs (m + j) + 1"
    using stable_step [OF assms(2)] by (simp only: stability.simps if_True)
  with Suc show ?case by simp
qed

lemma stability_stable_eq:
  assumes "\<And>k. m \<le> k \<Longrightarrow> rs k = Fin V" "V \<noteq> 0" "stability rs m = 0"
  shows "stability rs (m + j) = j"
proof (induction j)
  case 0
  show ?case using assms(3) by simp
next
  case (Suc j)
  have "rs (m + j) = Fin V" "rs (Suc (m + j)) = Fin V"
    by (simp_all add: assms(1))
  then have "stability rs (Suc (m + j)) = stability rs (m + j) + 1"
    using stable_step [OF assms(2)] by (simp only: stability.simps if_True)
  with Suc show ?case by simp
qed

lemma samples_taken_stable_le:
  assumes "\<And>k. m \<le> k \<Longrightarrow> rs k = Fin V" "V \<noteq> 0" "m \<le> 5"
  shows "samples_taken rs \<le> m + 6"
proof -
  have "5 \<le> stability rs (m + 5)"
    using assms(1,2) by (rule stability_stable_ge)
  moreover have "m + 5 < 30" using assms(3) by simp
  ultimately have "samples_taken rs \<le> (m + 5) + 1" by (intro samples_taken_le)
  then show ?thesis by simp
qed

lemma samples_taken_stable_eq:
  assumes "\<And>k. m \<le> k \<Longrightarrow> rs k = Fin V" "V \<noteq> 0" "m \<le> 5" "stability rs m = 0"
  shows "samples_taken rs = m + 6"
proof -
  have eq: "stability rs (m + j) = j" for j
    using assms(1,2,4) by (rule stability_stable_eq)
  have "samples_taken rs = (m + 5) + 1"
  proof (rule samples_taken_early)
    show "m + 5 < 30" using assms(3) by simp
    show "5 \<le> stability rs (m + 5)" by (simp add: eq)
    show "\<forall>j<m + 5. stability rs j < 5"
    proof (intro allI impI)
      fix j assume j: "j < m + 5"
      show "stability rs j < 5"
      proof (cases "j < m")
        case True
        with assms(3) stability_le [of rs j] show ?thesis by simp
      next
        case False
        then have "j = m + (j - m)" by simp
        then have "stability rs j = j - m" using eq [of "j - m"] by simp
        with j False show ?thesis by simp
      qed
    qed
  qed
  then show ?thesis by simp
qed

lemma kalibrasi_selesai_fields:
  "R0 (kalibrasi_selesai r tdone s) = r"
  "sedangKalibrasi (kalibrasi_selesai r tdone s) = False"
  "lastCalibrationTime (kalibrasi_selesai r tdone s) = tdone"
  "currentStatus (kalibrasi_selesai r tdone s) = ''Online''"
  "adcReads (kalibrasi_selesai r tdone s) = adcReads s"
  "amoniaPPMBuffer (kalibrasi_selesai r tdone s) = amoniaPPMBuffer s"
  "bufferCount (kalibrasi_selesai r tdone s) = bufferCount s"
  "lastAveragingTime (kalibrasi_selesai r tdone s) = lastAveragingTime s"
  by (simp_all add: kalibrasi_selesai_def displayStatus_def)

lemma word_elapsed:
  "unat (now - t :: 32 word) = (unat now + 2 ^ 32 - unat t) mod 2 ^ 32"
proof -
  have b: "unat now < 2 ^ 32" "unat t < 2 ^ 32"
    using unsigned_less [of now, where ?'a = nat] unsigned_less [of t, where ?'a = nat] by simp_all
  show ?thesis
  proof (cases "unat t \<le> unat now")
    case True
    then have "unat now + 2 ^ 32 - unat t = (unat now - unat t) + 1 * 2 ^ 32" by simp
    then have "(unat now + 2 ^ 32 - unat t) mod 2 ^ 32 = (unat now - unat t) mod 2 ^ 32"
      by (simp only: mod_mult_self1)
    also have "\<dots> = unat now - unat t" using b by simp
    finally show ?thesis using True by (simp add: unat_sub_if_size word_size)
  next
    case False
    then have "(unat now + 2 ^ 32 - unat t) mod 2 ^ 32 = unat now + 2 ^ 32 - unat t"
      using b by simp
    then show ?thesis using False by (simp add: unat_sub_if_size word_size)
  qed
qed

lemma f32_small: "f32 1 = Fin 1" "f32 3 = Fin 3" "f32 6 = Fin 6" "f32 7 = Fin 7"
  using f32_of_int [of 1] f32_of_int [of 3] f32_of_int [of 6] f32_of_int [of 7] by simp_all

lemma stability_stable_add:
  assumes "\<And>k. m \<le> k \<Longrightarrow> rs k = Fin V" "V \<noteq> 0"
  shows "stability rs (m + j) = stability rs m + j"
proof (induction j)
  case 0
  show ?case by simp
next
  case (Suc j)
  have "rs (m + j) = Fin V" "rs (Suc (m + j)) = Fin V"
    by (simp_all add: assms(1))
  then have "stability rs (Suc (m + j)) = stability rs (m + j) + 1"
    using stable_step [OF assms(2)] by (simp only: stability.simps if_True)
  with Suc show ?case by simp
qed





text \<open>Three streams of readings, and what the calibration makes of them.\<close>

lemma Rs_from_const_1365: "Rs_from (\<lambda>k. 1365) s k = Fin (9625601 / 1024)"
  by (simp add: Rs_from_def sensor_Rs_1365)

lemma samples_taken_const_1365: "samples_taken (Rs_from (\<lambda>k. 1365) s) = 6"
proof -
  have "samples_taken (Rs_from (\<lambda>k. 1365) s) = 0 + 6"
    by (rule samples_taken_stable_eq [where V = "9625601 / 1024"])
       (simp_all add: Rs_from_const_1365)
  then show ?thesis by simp
qed






lemma Rs_from_step_595_585:
  "Rs_from (\<lambda>k. if k = 0 then 595 else 585) initial_state k =
     (if k = 0 then Fin (7077647 / 256) else Fin (14438399 / 512))"
  by (simp add: Rs_from_def initial_state_def sensor_Rs_595 sensor_Rs_585)

lemma stable_585_after_595:
  "f_lt (frac_change (Fin (14438399 / 512)) (Fin (7077647 / 256))) (f64 0.02)"
  unfolding change_585_after_595 threshold_val by simp

lemma samples_taken_step_595_585:
  "samples_taken (Rs_from (\<lambda>k. if k = 0 then 595 else 585) initial_state) = 6"
proof -
  define rs where "rs = Rs_from (\<lambda>k. if k = 0 then 595 else 585) initial_state"
  have one: "stability rs (Suc 0) = 1"
    using stable_585_after_595 by (simp add: rs_def Rs_from_step_595_585)
  have "stability rs (1 + 4) = stability rs 1 + 4"
    by (rule stability_stable_add [where V = "14438399 / 512"])
       (simp_all add: rs_def Rs_from_step_595_585)
  with one have five: "stability rs 5 = 5" by simp
  have "samples_taken rs = 5 + 1"
  proof (rule samples_taken_early)
    show "\<forall>j<5. stability rs j < 5"
      using stability_le [of rs] by (auto intro: le_less_trans)
  qed (simp_all add: five)
  then show ?thesis by (simp add: rs_def)
qed

lemma mean_step_595_585:
  "mean_first (Rs_from (\<lambda>k. if k = 0 then 595 else 585) initial_state) 6 =
     Fin (14391215 / 512)"
proof -
  have "sum_first (Rs_from (\<lambda>k. if k = 0 then 595 else 585) initial_state) 6 =
      Fin (10793411 / 64)"
    by (simp add: eval_nat_numeral sum_first_Suc sum_first_0 Rs_from_step_595_585
        sumC_1 sumC_2 sumC_3 sumC_4 sumC_5 sumC_6)
  then show ?thesis
    by (simp add: mean_first_def f32_small sumC_mean)
qed

lemma kalibrasiAmoniaSensor_reads:
  "adcReads (kalibrasiAmoniaSensor adc tdone s) = adcReads s + samples_taken (Rs_from adc s)"
  by (simp add: kalibrasiAmoniaSensor_spec kalibrasi_selesai_fields)


text \<open>
  C4. The calibration takes at most 30 samples. The stability counter starts at zero;
  each sample after the first adds one to it when the fractional change
  \<open>|Rs - previous Rs| / previous Rs\<close> is below 0.02 and resets it to zero otherwise. The
  routine stops at the first sample where the counter reaches 5, with \<open>R0\<close> the mean
  resistance of the samples taken so far; if that never happens within 30 samples,
  \<open>R0\<close> is the mean of all 30. The change is the \<^verbatim>\<open>float\<close> that the code computes, and
  the mean is the \<^verbatim>\<open>float\<close> sum in the order of sampling divided by the number of
  samples.
\<close>

theorem C4_calibration_refines:
  "R0 (kalibrasiAmoniaSensor adc tdone s) =
     mean_first (Rs_from adc s) (samples_taken (Rs_from adc s))
   \<and> adcReads (kalibrasiAmoniaSensor adc tdone s) =
       adcReads s + samples_taken (Rs_from adc s)
   \<and> samples_taken (Rs_from adc s) \<le> 30
   \<and> samples_taken (Rs_from adc s) =
       (case find (\<lambda>k. 5 \<le> stability (Rs_from adc s) k) [0..<30] of
          Some k \<Rightarrow> k + 1 | None \<Rightarrow> 30)
   \<and> stability (Rs_from adc s) 0 = 0
   \<and> stability (Rs_from adc s) (Suc k) =
       (if f_lt (f_div (f_abs (f_sub (Rs_from adc s (Suc k)) (Rs_from adc s k)))
                  (Rs_from adc s k)) (f64 0.02)
        then stability (Rs_from adc s) k + 1 else 0)
   \<and> mean_first (Rs_from adc s) (samples_taken (Rs_from adc s)) =
       f_div (foldl f_add (Fin 0)
                (map (Rs_from adc s) [0..<samples_taken (Rs_from adc s)]))
         (f32 (real (samples_taken (Rs_from adc s))))"
  using samples_taken_bounds [of "Rs_from adc s"]
  by (simp add: kalibrasiAmoniaSensor_spec kalibrasi_selesai_fields samples_taken_def
      frac_change_def mean_first_def sum_first_def)

text \<open>
  The readings 595, 585, 585, \<dots> show the rounding at work. The exact change from the
  first resistance to the second is 0.02; the \<^verbatim>\<open>float\<close> change is 10737385 / 536870912,
  below the threshold, so the counter is 1 after the second sample, the calibration stops
  after six samples and \<open>R0\<close> is 14391215 / 512.
\<close>

theorem C4_calibration_refines_witness:
  "adcReads (kalibrasiAmoniaSensor (\<lambda>k. if k = 0 then 595 else 585) 3600 initial_state) = 6
   \<and> R0 (kalibrasiAmoniaSensor (\<lambda>k. if k = 0 then 595 else 585) 3600 initial_state) =
       Fin (14391215 / 512)
   \<and> stability (Rs_from (\<lambda>k. if k = 0 then 595 else 585) initial_state) 1 = 1
   \<and> frac_change (sensor_Rs 585) (sensor_Rs 595) = Fin (10737385 / 536870912)
   \<and> (10737385 / 536870912 :: real) < 1 / 50
   \<and> (4700 * (4095 - 585) / 585 - 4700 * (4095 - 595) / 595) / (4700 * (4095 - 595) / 595)
       = (1 / 50 :: real)"
proof -
  note t = C4_calibration_refines [of "\<lambda>k. if k = 0 then 595 else 585" 3600 initial_state 0]
  have n: "adcReads (kalibrasiAmoniaSensor (\<lambda>k. if k = 0 then 595 else 585) 3600 initial_state)
      = 6"
    using t unfolding samples_taken_step_595_585 by (simp add: initial_state_def)
  have r: "R0 (kalibrasiAmoniaSensor (\<lambda>k. if k = 0 then 595 else 585) 3600 initial_state) =
       Fin (14391215 / 512)"
    using t unfolding samples_taken_step_595_585 mean_step_595_585 by simp
  have "stability (Rs_from (\<lambda>k. if k = 0 then 595 else 585) initial_state) (Suc 0) =
       (if f_lt (frac_change (Fin (14438399 / 512)) (Fin (7077647 / 256))) (f64 0.02)
        then stability (Rs_from (\<lambda>k. if k = 0 then 595 else 585) initial_state) 0 + 1 else 0)"
    using t unfolding Rs_from_step_595_585 frac_change_def by simp
  then have st: "stability (Rs_from (\<lambda>k. if k = 0 then 595 else 585) initial_state) 1 = 1"
    using stable_585_after_595 by simp
  have c: "frac_change (sensor_Rs 585) (sensor_Rs 595) = Fin (10737385 / 536870912)"
    unfolding sensor_Rs_585 sensor_Rs_595 by (rule change_585_after_595)
  from n r st c show ?thesis by simp
qed

lemma calibrationInterval_unat: "unat calibrationInterval = 7200000"
  by (simp add: calibrationInterval_def)

lemma calibrationInterval_le:
  "calibrationInterval \<le> now - t \<longleftrightarrow> 7200000 \<le> (unat now + 2 ^ 32 - unat t) mod 2 ^ 32"
  by (simp add: word_le_nat_alt calibrationInterval_unat word_elapsed)

text \<open>
  C7, as stated, re-enters calibration only when the elapsed time exceeds the interval.
  With the last calibration at 1000 ms and \<^verbatim>\<open>millis()\<close> at 7201000 ms the elapsed time
  is exactly the interval of 7200000 ms, not more, and the code calibrates: six samples
  are read and the completion time is recorded.
\<close>

theorem C7_boundary_counterexample:
  "unat ((7201000 :: 32 word) - 1000) = 7200000
   \<and> \<not> unat calibrationInterval < unat ((7201000 :: 32 word) - 1000)
   \<and> \<not> sedangKalibrasi (initial_state\<lparr>sedangKalibrasi := False, lastCalibrationTime := 1000\<rparr>)
   \<and> lastCalibrationTime
        (autoKalibrasiAmoniaSensor (\<lambda>k. 1365) 7201000 7219000
           (initial_state\<lparr>sedangKalibrasi := False, lastCalibrationTime := 1000\<rparr>)) = 7219000
   \<and> adcReads
        (autoKalibrasiAmoniaSensor (\<lambda>k. 1365) 7201000 7219000
           (initial_state\<lparr>sedangKalibrasi := False, lastCalibrationTime := 1000\<rparr>)) = 6
   \<and> adcReads (initial_state\<lparr>sedangKalibrasi := False, lastCalibrationTime := 1000\<rparr>) = 0"
proof -
  define s where "s = initial_state\<lparr>sedangKalibrasi := False, lastCalibrationTime := 1000\<rparr>"
  define s1 where "s1 = displayStatus ''Auto Kalibrasi'' (s\<lparr>sedangKalibrasi := True\<rparr>)"
  have el: "unat ((7201000 :: 32 word) - 1000) = 7200000" by simp
  have auto: "autoKalibrasiAmoniaSensor (\<lambda>k. 1365) 7201000 7219000 s =
      kalibrasiAmoniaSensor (\<lambda>k. 1365) 7219000 s1"
    by (simp add: autoKalibrasiAmoniaSensor_def s_def s1_def initial_state_def
        calibrationInterval_def)
  have r: "adcReads s1 = 0"
    by (simp add: s1_def s_def initial_state_def)
  show ?thesis
    unfolding s_def [symmetric] auto
    using el r
    by (simp add: kalibrasiAmoniaSensor_reads kalibrasiAmoniaSensor_spec
        kalibrasi_selesai_fields calibrationInterval_unat samples_taken_const_1365)
       (simp add: s_def initial_state_def)
qed

text \<open>
  C7 (amended). The calibration has no failure path: every execution ends with a baseline
  in \<open>R0\<close> (the mean of the samples taken), the in-progress flag cleared and the
  completion time recorded. \<^verbatim>\<open>autoKalibrasiAmoniaSensor\<close> re-enters calibration exactly
  when no calibration is in progress and the elapsed time since the last one, taken in
  unsigned 32-bit arithmetic, is at least the interval of 7200000 ms; otherwise it leaves
  the state as it is. A re-entry shows in the number of readings taken.
\<close>

theorem C7_calibration_completes_and_reentry:
  "sedangKalibrasi (kalibrasiAmoniaSensor adc tdone s) = False
   \<and> lastCalibrationTime (kalibrasiAmoniaSensor adc tdone s) = tdone
   \<and> R0 (kalibrasiAmoniaSensor adc tdone s) =
       mean_first (Rs_from adc s) (samples_taken (Rs_from adc s))
   \<and> currentStatus (kalibrasiAmoniaSensor adc tdone s) = ''Online''
   \<and> autoKalibrasiAmoniaSensor adc now tdone s =
       (if \<not> sedangKalibrasi s
           \<and> 7200000 \<le> (unat now + 2 ^ 32 - unat (lastCalibrationTime s)) mod 2 ^ 32
        then kalibrasiAmoniaSensor adc tdone
               (displayStatus ''Auto Kalibrasi'' (s\<lparr>sedangKalibrasi := True\<rparr>))
        else s)
   \<and> (adcReads s < adcReads (autoKalibrasiAmoniaSensor adc now tdone s)
        \<longleftrightarrow> \<not> sedangKalibrasi s
           \<and> 7200000 \<le> (unat now + 2 ^ 32 - unat (lastCalibrationTime s)) mod 2 ^ 32)"
proof -
  have fields: "sedangKalibrasi (kalibrasiAmoniaSensor adc tdone s) = False"
    "lastCalibrationTime (kalibrasiAmoniaSensor adc tdone s) = tdone"
    "R0 (kalibrasiAmoniaSensor adc tdone s) =
       mean_first (Rs_from adc s) (samples_taken (Rs_from adc s))"
    "currentStatus (kalibrasiAmoniaSensor adc tdone s) = ''Online''"
    by (simp_all add: kalibrasiAmoniaSensor_spec kalibrasi_selesai_fields)
  have auto: "autoKalibrasiAmoniaSensor adc now tdone s =
       (if \<not> sedangKalibrasi s
           \<and> 7200000 \<le> (unat now + 2 ^ 32 - unat (lastCalibrationTime s)) mod 2 ^ 32
        then kalibrasiAmoniaSensor adc tdone
               (displayStatus ''Auto Kalibrasi'' (s\<lparr>sedangKalibrasi := True\<rparr>))
        else s)"
    unfolding autoKalibrasiAmoniaSensor_def calibrationInterval_le by (rule refl)
  have pos: "0 < samples_taken rs" for rs
    using samples_taken_bounds [of rs] by simp
  have reads: "adcReads s < adcReads (autoKalibrasiAmoniaSensor adc now tdone s)
        \<longleftrightarrow> \<not> sedangKalibrasi s
           \<and> 7200000 \<le> (unat now + 2 ^ 32 - unat (lastCalibrationTime s)) mod 2 ^ 32"
    unfolding auto by (simp add: kalibrasiAmoniaSensor_reads pos)
  from fields auto reads show ?thesis by blast
qed





section \<open>Properties of the concentration\<close>

lemma exp_search_high: "2 powi (emin + int n) \<le> a \<Longrightarrow> exp_search a emin n = emin + int n"
  by (cases n) simp_all

lemma f_le_FinD:
  assumes "f_le (Fin lo) v" "f_le v (Fin hi)"
  shows "\<exists>z. v = Fin z \<and> lo \<le> z \<and> z \<le> hi"
  using assms by (cases v) simp_all

lemma f32_between:
  assumes "lo \<le> x" "x \<le> hi" "f32 lo = Fin lo" "f32 hi = Fin hi"
  shows "\<exists>z. f32 x = Fin z \<and> lo \<le> z \<and> z \<le> hi"
  using f32_mono [OF assms(1)] f32_mono [OF assms(2)] unfolding assms(3,4)
  by (rule f_le_FinD)

lemma f64_between:
  assumes "lo \<le> x" "x \<le> hi" "f64 lo = Fin lo" "f64 hi = Fin hi"
  shows "\<exists>z. f64 x = Fin z \<and> lo \<le> z \<and> z \<le> hi"
  using f64_mono [OF assms(1)] f64_mono [OF assms(2)] unfolding assms(3,4)
  by (rule f_le_FinD)

lemma f32_dyadic:
  assumes "\<bar>m\<bar> < 2 ^ 24" "- 149 \<le> k" "\<bar>real_of_int m * 2 powi k\<bar> < 2 powi 128"
  shows "f32 (real_of_int m * 2 powi k) = Fin (real_of_int m * 2 powi k)"
  unfolding f32_def using assms
  by (intro fl_round_exact [where m = m and k = k]) simp_all

lemma f64_dyadic:
  assumes "\<bar>m\<bar> < 2 ^ 53" "- 1074 \<le> k" "\<bar>real_of_int m * 2 powi k\<bar> < 2 powi 1024"
  shows "f64 (real_of_int m * 2 powi k) = Fin (real_of_int m * 2 powi k)"
  unfolding f64_def using assms
  by (intro fl_round_exact [where m = m and k = k]) simp_all

lemma f32_exact_values:
  "f32 (149 / 128) = Fin (149 / 128)" "f32 (151 / 128) = Fin (151 / 128)"
  "f32 (1 / 64) = Fin (1 / 64)" "f32 70 = Fin 70" "f32 (- 30) = Fin (- 30)"
  "f32 1000 = Fin 1000" "f32 2 = Fin 2"
  using f32_dyadic [of 149 "- 7"] f32_dyadic [of 151 "- 7"] f32_dyadic [of 1 "- 6"]
    f32_dyadic [of 70 0] f32_dyadic [of "- 30" 0] f32_dyadic [of 1000 0] f32_dyadic [of 2 0]
  by simp_all

lemma f64_exact_values:
  "f64 (149 / 128) = Fin (149 / 128)" "f64 (151 / 128) = Fin (151 / 128)"
  "f64 (1 / 64) = Fin (1 / 64)" "f64 0 = Fin 0" "f64 1000 = Fin 1000"
  "f64 (2 ^ 200) = Fin (2 ^ 200)"
  using f64_dyadic [of 149 "- 7"] f64_dyadic [of 151 "- 7"] f64_dyadic [of 1 "- 6"]
    f64_dyadic [of 0 0] f64_dyadic [of 1000 0] f64_dyadic [of 1 200]
  by simp_all

lemma f32_overflow:
  assumes "2 ^ 128 \<le> x"
  shows "f32 x = PInf"
proof -
  have e: "exp_search \<bar>2 ^ 128 :: real\<bar> (- 126) (nat (127 - - 126)) = - 126 + int (nat (127 - - 126))"
    by (rule exp_search_high) simp
  have "grid_round 24 (- 126) 127 (2 ^ 128) = of_int (round_even (of_int (2 ^ 24))) * 2 powi 104"
    unfolding grid_round_def Let_def e by simp
  then have "grid_round 24 (- 126) 127 (2 ^ 128) = 2 ^ 128"
    unfolding round_even_of_int by simp
  then have top: "f32 (2 ^ 128) = PInf"
    by (simp add: f32_def fl_round_def)
  have "f_le (f32 (2 ^ 128)) (f32 x)" using assms by (rule f32_mono)
  then show ?thesis unfolding top by (cases "f32 x") simp_all
qed

lemma root_of_power:
  fixes x :: real
  assumes "0 < x" "0 < n"
  shows "(x ^ n) powr (1 / real n) = x"
proof -
  have "(x ^ n) powr (1 / real n) = (x powr real n) powr (1 / real n)"
    using assms(1) by (simp add: powr_realpow)
  also have "\<dots> = x powr (real n * (1 / real n))"
    by (simp only: powr_powr)
  also have "\<dots> = x" using assms by simp
  finally show ?thesis .
qed

lemma ten_powr_intercept:
  "149 / 128 \<le> (10 :: real) powr (2248147 / 33554432)
   \<and> (10 :: real) powr (2248147 / 33554432) \<le> 151 / 128"
proof -
  have lo: "(149 / 128 :: real) ^ 15 < 10" by (simp add: power_divide)
  have hi: "(10 :: real) < (151 / 128) ^ 14" by (simp add: power_divide)
  have "(149 / 128 :: real) = ((149 / 128) ^ 15) powr (1 / real (15 :: nat))"
    by (rule root_of_power [symmetric]) simp_all
  also have "\<dots> < 10 powr (1 / real (15 :: nat))"
    by (rule powr_less_mono2) (use lo in simp_all)
  also have "\<dots> < 10 powr (2248147 / 33554432)"
    by (rule powr_less_mono) simp_all
  finally have a: "149 / 128 < (10 :: real) powr (2248147 / 33554432)" .
  have "(10 :: real) powr (2248147 / 33554432) < 10 powr (1 / real (14 :: nat))"
    by (rule powr_less_mono) simp_all
  also have "\<dots> < ((151 / 128) ^ 14) powr (1 / real (14 :: nat))"
    by (rule powr_less_mono2) (use hi in simp_all)
  also have "\<dots> = 151 / 128"
    by (rule root_of_power) simp_all
  finally have b: "(10 :: real) powr (2248147 / 33554432) < 151 / 128" .
  from a b show ?thesis by simp
qed

lemma f_pow10_between:
  assumes "lo \<le> 10 powr x" "10 powr x \<le> hi" "f64 lo = Fin lo" "f64 hi = Fin hi"
    "f32 lo = Fin lo" "f32 hi = Fin hi"
  shows "\<exists>z. f_pow10 (Fin x) = Fin z \<and> lo \<le> z \<and> z \<le> hi"
proof -
  from f64_between [OF assms(1-4)] obtain y
    where y: "f64 (10 powr x) = Fin y" "lo \<le> y" "y \<le> hi" by blast
  from f32_between [OF y(2,3) assms(5,6)] show ?thesis by (simp add: y(1))
qed

lemma NH3_Curve_nth:
  "NH3_Curve ! 0 = Fin (- (9834385 / 4194304))" "NH3_Curve ! 1 = Fin (2248147 / 33554432)"
  unfolding NH3_Curve_def NH3_slope_val NH3_intercept_val by simp_all

lemma getPPM_unfold: "getPPM ratio a b = f_pow10 (f_add (f_mul a (f_log10 ratio)) b)"
  by (simp add: getPPM_def)

lemma getPPM_firmware_one:
  "getPPM (Fin 1) (NH3_Curve ! 0) (NH3_Curve ! 1) = f_pow10 (Fin (2248147 / 33554432))"
  unfolding NH3_Curve_nth getPPM_unfold
  by (simp add: f_mul_Fin f_add_Fin f32_NH3_intercept_exact)

lemma getPPM_firmware_one_bounds:
  "\<exists>z. getPPM (Fin 1) (NH3_Curve ! 0) (NH3_Curve ! 1) = Fin z \<and> 149 / 128 \<le> z \<and> z \<le> 151 / 128"
  unfolding getPPM_firmware_one
  using ten_powr_intercept
  by (intro f_pow10_between) (simp_all add: f32_exact_values f64_exact_values)

lemma f_pow10_overflow:
  assumes "f_le (Fin 70) v"
  shows "f_pow10 v = PInf"
proof (cases v)
  case (Fin s)
  with assms have s: "70 \<le> s" by simp
  have "(2 :: real) ^ 200 \<le> 10 ^ 70" by simp
  also have "(10 :: real) ^ 70 = 10 powr 70" by simp
  also have "\<dots> \<le> 10 powr s" using s by (intro powr_mono) simp_all
  finally have "f_le (f64 (2 ^ 200)) (f64 (10 powr s))" by (rule f64_mono)
  then have big: "f_le (Fin (2 ^ 200)) (f64 (10 powr s))"
    by (simp only: f64_exact_values)
  show ?thesis
  proof (cases "f64 (10 powr s)")
    case (Fin w)
    with big have "2 ^ 200 \<le> w" by simp
    moreover have "(2 :: real) ^ 128 \<le> 2 ^ 200" by simp
    ultimately have "2 ^ 128 \<le> w" by linarith
    then have "f32 w = PInf" by (rule f32_overflow)
    with Fin \<open>v = Fin s\<close> show ?thesis by simp
  next
    case PInf
    with \<open>v = Fin s\<close> show ?thesis by simp
  next
    case NInf
    with big show ?thesis by simp
  next
    case NaN
    with big show ?thesis by simp
  qed
next
  case PInf
  then show ?thesis by simp
next
  case NInf
  with assms show ?thesis by simp
next
  case NaN
  with assms show ?thesis by simp
qed

lemma log_ppm_large:
  assumes "f_le l (Fin (- 30))"
  shows "f_le (Fin 70)
    (f_add (f_mul (Fin (- (9834385 / 4194304))) l) (Fin (2248147 / 33554432)))"
proof -
  have m: "f_le (Fin 70) (f_mul (Fin (- (9834385 / 4194304))) l)"
  proof (cases l)
    case (Fin x)
    with assms have "x \<le> - 30" by simp
    then have "70 \<le> - (9834385 / 4194304) * x" by simp
    then have "f_le (f32 70) (f32 (- (9834385 / 4194304) * x))" by (rule f32_mono)
    with Fin show ?thesis by (simp only: f_mul_Fin f32_exact_values)
  next
    case NInf
    then show ?thesis by (simp add: f_mul_def inf_of_sign_def)
  next
    case PInf
    with assms show ?thesis by simp
  next
    case NaN
    with assms show ?thesis by simp
  qed
  show ?thesis
  proof (cases "f_mul (Fin (- (9834385 / 4194304))) l")
    case (Fin q)
    with m have "70 \<le> q + 2248147 / 33554432" by simp
    then have "f_le (f32 70) (f32 (q + 2248147 / 33554432))" by (rule f32_mono)
    with Fin show ?thesis by (simp only: f_add_Fin f32_exact_values)
  next
    case PInf
    then show ?thesis by (simp add: f_add_def)
  next
    case NInf
    with m show ?thesis by simp
  next
    case NaN
    with m show ?thesis by simp
  qed
qed

lemma getPPM_small_ratio:
  assumes "0 < r" "r \<le> 2 powi (- 100)"
  shows "getPPM (Fin r) (NH3_Curve ! 0) (NH3_Curve ! 1) = PInf"
proof -
  have "(2 :: real) powi (- 100) \<le> 10 powr (- 30)"
    by (simp add: powr_minus_divide power_int_minus_divide divide_simps)
  with assms(2) have "r \<le> 10 powr (- 30)" by linarith
  then have "log 10 r \<le> - 30"
    using assms(1) by (simp add: log_le_iff)
  then have "f_le (f32 (log 10 r)) (f32 (- 30))" by (rule f32_mono)
  then have "f_le (f_log10 (Fin r)) (Fin (- 30))"
    using assms(1) by (simp only: f_log10.simps if_True f32_exact_values)
  then have "f_le (Fin 70)
      (f_add (f_mul (Fin (- (9834385 / 4194304))) (f_log10 (Fin r))) (Fin (2248147 / 33554432)))"
    by (rule log_ppm_large)
  then show ?thesis
    unfolding getPPM_unfold NH3_Curve_nth by (rule f_pow10_overflow)
qed

lemma getPPM_positive_ratio:
  "0 < r \<Longrightarrow> getPPM (Fin r) (Fin a) (Fin b) =
     f_pow10 (f_add (f_mul (Fin a) (f32 (log 10 r))) (Fin b))"
  by (simp add: getPPM_unfold)

lemma getPPM_swapped_one:
  "\<exists>z. getPPM (Fin 1) (NH3_Curve ! 1) (NH3_Curve ! 0) = Fin z \<and> 0 \<le> z \<and> z \<le> 1 / 64"
proof -
  have e: "getPPM (Fin 1) (NH3_Curve ! 1) (NH3_Curve ! 0) = f_pow10 (Fin (- (9834385 / 4194304)))"
    unfolding NH3_Curve_nth getPPM_unfold
    by (simp add: f_mul_Fin f_add_Fin f32_NH3_slope_exact)
  have "(10 :: real) powr (- (9834385 / 4194304)) \<le> 10 powr (- 2)"
    by (intro powr_mono) simp_all
  also have "(10 :: real) powr (- 2) = 1 / 100" by (simp add: powr_minus_divide)
  finally have "(10 :: real) powr (- (9834385 / 4194304)) \<le> 1 / 64" by simp
  moreover have "0 \<le> (10 :: real) powr (- (9834385 / 4194304))" by simp
  ultimately show ?thesis
    unfolding e
    by (intro f_pow10_between) (simp_all add: f32_exact_values f64_exact_values)
qed

text \<open>
  C2, as stated, takes 0.0670 for the slope and -2.3447 for the intercept. The firmware
  passes \<^verbatim>\<open>NH3_Curve[0] = -2.3447\<close> as the factor of \<^verbatim>\<open>log10(ratio)\<close> and
  \<^verbatim>\<open>NH3_Curve[1] = 0.0670\<close> as the added term, so a ratio of 1 gives a concentration
  between 149 / 128 and 151 / 128 (about \<open>10 powr 0.0670\<close>) and not \<open>10 powr (-2.3447)\<close>,
  which is below 0.01. A value of at most 1 / 64, as the claim expects, is what the call
  with the two coefficients exchanged returns.
\<close>

theorem C2_swapped_coefficients_counterexample:
  "(\<exists>z. getPPM (Fin 1) (NH3_Curve ! 0) (NH3_Curve ! 1) = Fin z \<and> 149 / 128 \<le> z \<and> z \<le> 151 / 128)
   \<and> (10 :: real) powr (0.0670 * log 10 1 + - 2.3447) < 1 / 100
   \<and> getPPM (Fin 1) (NH3_Curve ! 0) (NH3_Curve ! 1)
       \<noteq> Fin (10 powr (0.0670 * log 10 1 + - 2.3447))
   \<and> (\<exists>z. getPPM (Fin 1) (NH3_Curve ! 1) (NH3_Curve ! 0) = Fin z \<and> 0 \<le> z \<and> z \<le> 1 / 64)"
proof -
  have "(10 :: real) powr (- 2.3447) < 10 powr (- 2)"
    by (rule powr_less_mono) simp_all
  also have "(10 :: real) powr (- 2) = 1 / 100"
    by (simp add: powr_minus_divide)
  finally have small: "(10 :: real) powr (0.0670 * log 10 1 + - 2.3447) < 1 / 100"
    by simp
  from getPPM_firmware_one_bounds obtain z
    where z: "getPPM (Fin 1) (NH3_Curve ! 0) (NH3_Curve ! 1) = Fin z" "149 / 128 \<le> z" by blast
  have "z \<noteq> 10 powr (0.0670 * log 10 1 + - 2.3447)"
    using z(2) small by linarith
  then have ne: "getPPM (Fin 1) (NH3_Curve ! 0) (NH3_Curve ! 1)
       \<noteq> Fin (10 powr (0.0670 * log 10 1 + - 2.3447))"
    unfolding z(1) by simp
  from getPPM_firmware_one_bounds small ne getPPM_swapped_one show ?thesis by blast
qed

lemma f32_underflow:
  assumes "0 \<le> x" "x \<le> 2 powi (- 151)"
  shows "f32 x = Fin 0"
proof (rule f32_near [where e = "- 126" and m = 0])
  have "(2 :: real) powi (- 151) < 2 powi (- 126 + 1)" by simp
  with assms show "\<bar>x\<bar> < 2 powi (- 126 + 1)" by simp
  have "x / 2 powi (- 126 - 23) \<le> 2 powi (- 151) / 2 powi (- 126 - 23)"
    using assms(2) by (intro divide_right_mono) simp_all
  also have "\<dots> = 1 / 4" by (simp add: power_int_minus_divide)
  finally show "x / 2 powi (- 126 - 23) < real_of_int 0 + 1 / 2" by simp
  have "0 \<le> x / 2 powi (- 126 - 23)" using assms(1) by simp
  then show "real_of_int 0 - 1 / 2 < x / 2 powi (- 126 - 23)" by simp
qed simp_all

lemma f64_tiny_exact: "f64 (2 powi (- 200)) = Fin (2 powi (- 200))"
  using f64_dyadic [of 1 "- 200"] by simp

lemma f_pow10_underflow:
  assumes "f_le v (Fin (- 69))"
  shows "f_pow10 v = Fin 0"
proof (cases v)
  case (Fin s)
  with assms have s: "s \<le> - 69" by simp
  have "(10 :: real) powr s \<le> 10 powr (- 69)" using s by (intro powr_mono) simp_all
  also have "(10 :: real) powr (- 69) = 1 / 10 ^ 69" by (simp add: powr_minus_divide)
  also have "\<dots> \<le> 1 / 2 ^ 200" by (intro divide_left_mono) simp_all
  also have "\<dots> = 2 powi (- 200)" by (simp add: power_int_minus_divide)
  finally have hi: "(10 :: real) powr s \<le> 2 powi (- 200)" .
  have "0 \<le> (10 :: real) powr s" by simp
  from f64_between [OF this hi _ f64_tiny_exact] obtain w
    where w: "f64 (10 powr s) = Fin w" "0 \<le> w" "w \<le> 2 powi (- 200)"
    by (auto simp: f64_exact_values)
  have "(2 :: real) powi (- 200) \<le> 2 powi (- 151)" by simp
  with w(3) have "w \<le> 2 powi (- 151)" by linarith
  with w(2) have "f32 w = Fin 0" by (rule f32_underflow)
  with w(1) Fin show ?thesis by simp
next
  case PInf
  with assms show ?thesis by simp
next
  case NInf
  then show ?thesis by simp
next
  case NaN
  with assms show ?thesis by simp
qed

lemma log_ppm_small:
  assumes "f_le (Fin 30) l"
  shows "f_le
    (f_add (f_mul (Fin (- (9834385 / 4194304))) l) (Fin (2248147 / 33554432))) (Fin (- 69))"
proof -
  have e70: "f32 (- 70) = Fin (- 70)" "f32 (- 69) = Fin (- 69)"
    using f32_dyadic [of "- 70" 0] f32_dyadic [of "- 69" 0] by simp_all
  have m: "f_le (f_mul (Fin (- (9834385 / 4194304))) l) (Fin (- 70))"
  proof (cases l)
    case (Fin x)
    with assms have "30 \<le> x" by simp
    then have "- (9834385 / 4194304) * x \<le> - 70" by simp
    then have "f_le (f32 (- (9834385 / 4194304) * x)) (f32 (- 70))" by (rule f32_mono)
    with Fin show ?thesis by (simp only: f_mul_Fin e70)
  next
    case PInf
    then show ?thesis by (simp add: f_mul_def inf_of_sign_def)
  next
    case NInf
    with assms show ?thesis by simp
  next
    case NaN
    with assms show ?thesis by simp
  qed
  show ?thesis
  proof (cases "f_mul (Fin (- (9834385 / 4194304))) l")
    case (Fin q)
    with m have "q + 2248147 / 33554432 \<le> - 69" by simp
    then have "f_le (f32 (q + 2248147 / 33554432)) (f32 (- 69))" by (rule f32_mono)
    with Fin show ?thesis by (simp only: f_add_Fin e70)
  next
    case NInf
    then show ?thesis by (simp add: f_add_def)
  next
    case PInf
    with m show ?thesis by simp
  next
    case NaN
    with m show ?thesis by simp
  qed
qed

lemma getPPM_large_ratio:
  assumes "2 powi 100 \<le> r"
  shows "getPPM (Fin r) (NH3_Curve ! 0) (NH3_Curve ! 1) = Fin 0"
proof -
  have "(0 :: real) < 2 powi 100" by simp
  with assms have pos: "0 < r" by linarith
  have "(10 :: real) powr 30 \<le> 2 powi 100" by simp
  with assms have "10 powr 30 \<le> r" by linarith
  then have "30 \<le> log 10 r"
    using pos by (simp add: le_log_iff)
  then have "f_le (f32 30) (f32 (log 10 r))" by (rule f32_mono)
  then have "f_le (Fin 30) (f_log10 (Fin r))"
    using pos by (simp only: f_log10.simps if_True f32_30)
  then have "f_le
      (f_add (f_mul (Fin (- (9834385 / 4194304))) (f_log10 (Fin r))) (Fin (2248147 / 33554432)))
      (Fin (- 69))"
    by (rule log_ppm_small)
  then show ?thesis
    unfolding getPPM_unfold NH3_Curve_nth by (rule f_pow10_underflow)
qed

lemma getPPM_finite_exponent:
  assumes "0 < r" "f_add (f_mul (Fin c) (f32 (log 10 r))) (Fin d) = Fin e"
  shows "getPPM (Fin r) (Fin c) (Fin d) = to_f32 (f64 (10 powr e))"
  using assms by (simp add: getPPM_unfold)

text \<open>
  C2 (amended). \<^verbatim>\<open>getPPM(ratio, a, b)\<close> is \<open>10 powr (a * log10 ratio + b)\<close> evaluated in
  floating point: for a ratio above zero the logarithm is rounded to a \<^verbatim>\<open>float\<close>, so are
  the product and the sum, and the power of that exponent is computed in \<^verbatim>\<open>double\<close> and
  returned as a \<^verbatim>\<open>float\<close>. The firmware's coefficients are the slope
  \<^verbatim>\<open>NH3_Curve[0]\<close>, the \<^verbatim>\<open>float\<close> nearest to -2.3447, and the intercept \<^verbatim>\<open>NH3_Curve[1]\<close>,
  the \<^verbatim>\<open>float\<close> nearest to 0.0670. With them a ratio of 1 yields a concentration between
  149 / 128 and 151 / 128 (\<open>10 powr 0.0670\<close> is about 1.167); a ratio of at most
  \<open>2 powi (- 100)\<close> overflows to plus infinity and a ratio from \<open>2 powi 100\<close> on underflows
  to zero.
\<close>

theorem C2_getPPM_formula:
  "getPPM ratio a b = f_pow10 (f_add (f_mul a (f_log10 ratio)) b)
   \<and> (0 < r \<longrightarrow> f_log10 (Fin r) = f32 (log 10 r))
   \<and> f_pow10 (Fin x) = to_f32 (f64 (10 powr x))
   \<and> (0 < r \<and> f_add (f_mul (Fin c) (f32 (log 10 r))) (Fin d) = Fin e \<longrightarrow>
        getPPM (Fin r) (Fin c) (Fin d) = to_f32 (f64 (10 powr e)))
   \<and> NH3_Curve ! 0 = f32 (- 2.3447) \<and> NH3_Curve ! 1 = f32 0.0670
   \<and> NH3_Curve ! 0 = Fin (- (9834385 / 4194304)) \<and> NH3_Curve ! 1 = Fin (2248147 / 33554432)
   \<and> (\<exists>z. getPPM (Fin 1) (NH3_Curve ! 0) (NH3_Curve ! 1) = Fin z
          \<and> 149 / 128 \<le> z \<and> z \<le> 151 / 128)
   \<and> (0 < r \<and> r \<le> 2 powi (- 100) \<longrightarrow>
        getPPM (Fin r) (NH3_Curve ! 0) (NH3_Curve ! 1) = PInf)
   \<and> (2 powi 100 \<le> r \<longrightarrow> getPPM (Fin r) (NH3_Curve ! 0) (NH3_Curve ! 1) = Fin 0)"
proof (intro conjI impI)
  show "getPPM ratio a b = f_pow10 (f_add (f_mul a (f_log10 ratio)) b)"
    by (rule getPPM_unfold)
  show "f_log10 (Fin r) = f32 (log 10 r)" if "0 < r"
    using that by simp
  show "f_pow10 (Fin x) = to_f32 (f64 (10 powr x))"
    by simp
  show "getPPM (Fin r) (Fin c) (Fin d) = to_f32 (f64 (10 powr e))"
    if "0 < r \<and> f_add (f_mul (Fin c) (f32 (log 10 r))) (Fin d) = Fin e"
    using that by (intro getPPM_finite_exponent) simp_all
  show "NH3_Curve ! 0 = f32 (- 2.3447)" "NH3_Curve ! 1 = f32 0.0670"
    unfolding NH3_Curve_def by simp_all
  show "NH3_Curve ! 0 = Fin (- (9834385 / 4194304))"
    "NH3_Curve ! 1 = Fin (2248147 / 33554432)"
    by (rule NH3_Curve_nth)+
  show "\<exists>z. getPPM (Fin 1) (NH3_Curve ! 0) (NH3_Curve ! 1) = Fin z
          \<and> 149 / 128 \<le> z \<and> z \<le> 151 / 128"
    by (rule getPPM_firmware_one_bounds)
  show "getPPM (Fin r) (NH3_Curve ! 0) (NH3_Curve ! 1) = PInf"
    if "0 < r \<and> r \<le> 2 powi (- 100)"
    using that by (intro getPPM_small_ratio) simp_all
  show "getPPM (Fin r) (NH3_Curve ! 0) (NH3_Curve ! 1) = Fin 0" if "2 powi 100 \<le> r"
    using that by (rule getPPM_large_ratio)
qed

theorem C2_getPPM_formula_witness:
  "(0 :: real) < 10
   \<and> f_add (f_mul (Fin 2) (f32 (log 10 10))) (Fin 1) = Fin 3
   \<and> getPPM (Fin 10) (Fin 2) (Fin 1) = Fin 1000
   \<and> (0 :: real) < 2 powi (- 100)
   \<and> getPPM (Fin (2 powi (- 100))) (NH3_Curve ! 0) (NH3_Curve ! 1) = PInf
   \<and> getPPM (Fin (2 powi 100)) (NH3_Curve ! 0) (NH3_Curve ! 1) = Fin 0"
proof -
  have e: "f32 1 = Fin 1" "f32 3 = Fin 3"
    using f32_dyadic [of 1 0] f32_dyadic [of 3 0] by simp_all
  have a: "f_add (f_mul (Fin 2) (f32 (log 10 10))) (Fin 1) = Fin 3"
    by (simp add: e f_mul_Fin f_add_Fin f32_exact_values)
  have "getPPM (Fin 10) (Fin 2) (Fin 1) = to_f32 (f64 (10 powr 3))"
    using C2_getPPM_formula [where r = 10 and c = 2 and d = 1 and e = 3] a by simp
  then have b: "getPPM (Fin 10) (Fin 2) (Fin 1) = Fin 1000"
    by (simp add: f64_exact_values f32_exact_values)
  have h: "(0 :: real) < 2 powi (- 100) \<and> (2 :: real) powi (- 100) \<le> 2 powi (- 100)"
    "(2 :: real) powi 100 \<le> 2 powi 100"
    by simp_all
  have c: "getPPM (Fin (2 powi (- 100))) (NH3_Curve ! 0) (NH3_Curve ! 1) = PInf"
    using C2_getPPM_formula [where r = "2 powi (- 100)"] h(1) by blast
  have d: "getPPM (Fin (2 powi 100)) (NH3_Curve ! 0) (NH3_Curve ! 1) = Fin 0"
    using C2_getPPM_formula [where r = "2 powi 100"] h(2) by blast
  from a b c d show ?thesis by simp
qed

section \<open>Properties of the buffer and the windowed average\<close>

lemma NH3_Curve_f32: "NH3_Curve ! 0 = f32 (- 2.3447)" "NH3_Curve ! 1 = f32 0.0670"
  unfolding NH3_Curve_def by simp_all

lemma f32_one: "f32 1 = Fin 1"
  using f32_of_int [of 1] by simp

lemma f32_small_ints:
  "f32 3 = Fin 3" "f32 10 = Fin 10" "f32 20 = Fin 20" "f32 30 = Fin 30" "f32 60 = Fin 60"
  using f32_of_int [of 3] f32_of_int [of 10] f32_of_int [of 20] f32_of_int [of 30]
    f32_of_int [of 60]
  by simp_all

lemma f_eq_zero: "f_eq x (Fin 0) \<longleftrightarrow> x = Fin 0"
  by (cases x) simp_all

lemma updateAmoniaBuffer_calibrating:
  "sedangKalibrasi s \<Longrightarrow> updateAmoniaBuffer adc s = s"
  by (simp add: updateAmoniaBuffer_def)

lemma updateAmoniaBuffer_uncalibrated:
  "R0 s = Fin 0 \<Longrightarrow>
     amoniaPPMBuffer (updateAmoniaBuffer adc s) = amoniaPPMBuffer s
     \<and> bufferCount (updateAmoniaBuffer adc s) = bufferCount s"
  by (simp add: updateAmoniaBuffer_def Let_def)

lemma updateAmoniaBuffer_sample:
  assumes "\<not> sedangKalibrasi s" "R0 s \<noteq> Fin 0"
  shows "updateAmoniaBuffer adc s =
     buffer_add (getPPM (f_div (sensor_Rs (adc (adcReads s))) (R0 s))
                   (f32 (- 2.3447)) (f32 0.0670))
       (s\<lparr>adcReads := adcReads s + 1\<rparr>)"
  using assms unfolding updateAmoniaBuffer_def NH3_Curve_f32 Let_def
  by (simp add: f_eq_zero)

text \<open>
  C5. \<^verbatim>\<open>updateAmoniaBuffer\<close> changes nothing while the calibration flag is set, and leaves
  the sum and the count of the buffer as they are whenever \<open>R0\<close> is zero. When no
  calibration is in progress and \<open>R0\<close> is not zero, it adds the one PPM sample derived
  from the reading to the sum and one to the count.
\<close>

theorem C5_buffer_update_frame:
  "(sedangKalibrasi s \<longrightarrow> updateAmoniaBuffer adc s = s)
   \<and> (R0 s = Fin 0 \<longrightarrow>
        amoniaPPMBuffer (updateAmoniaBuffer adc s) = amoniaPPMBuffer s
        \<and> bufferCount (updateAmoniaBuffer adc s) = bufferCount s)
   \<and> (\<not> sedangKalibrasi s \<and> R0 s \<noteq> Fin 0 \<longrightarrow>
        amoniaPPMBuffer (updateAmoniaBuffer adc s) =
          f_add (amoniaPPMBuffer s)
            (getPPM (f_div (sensor_Rs (adc (adcReads s))) (R0 s)) (f32 (- 2.3447)) (f32 0.0670))
        \<and> bufferCount (updateAmoniaBuffer adc s) = bufferCount s + 1)"
proof (intro conjI impI)
  assume "sedangKalibrasi s"
  then show "updateAmoniaBuffer adc s = s" by (rule updateAmoniaBuffer_calibrating)
next
  assume z: "R0 s = Fin 0"
  show "amoniaPPMBuffer (updateAmoniaBuffer adc s) = amoniaPPMBuffer s"
    using updateAmoniaBuffer_uncalibrated [OF z] by simp
  show "bufferCount (updateAmoniaBuffer adc s) = bufferCount s"
    using updateAmoniaBuffer_uncalibrated [OF z] by simp
next
  assume a: "\<not> sedangKalibrasi s \<and> R0 s \<noteq> Fin 0"
  then have u: "updateAmoniaBuffer adc s =
     buffer_add (getPPM (f_div (sensor_Rs (adc (adcReads s))) (R0 s))
                   (f32 (- 2.3447)) (f32 0.0670))
       (s\<lparr>adcReads := adcReads s + 1\<rparr>)"
    by (intro updateAmoniaBuffer_sample) simp_all
  show "amoniaPPMBuffer (updateAmoniaBuffer adc s) =
          f_add (amoniaPPMBuffer s)
            (getPPM (f_div (sensor_Rs (adc (adcReads s))) (R0 s)) (f32 (- 2.3447)) (f32 0.0670))"
    unfolding u by (simp add: buffer_add_def)
  show "bufferCount (updateAmoniaBuffer adc s) = bufferCount s + 1"
    unfolding u by (simp add: buffer_add_def)
qed

theorem C5_buffer_update_frame_witness:
  "sedangKalibrasi initial_state
   \<and> updateAmoniaBuffer (\<lambda>k. 1365) initial_state = initial_state
   \<and> R0 (initial_state\<lparr>sedangKalibrasi := False\<rparr>) = Fin 0
   \<and> amoniaPPMBuffer (updateAmoniaBuffer (\<lambda>k. 1365) (initial_state\<lparr>sedangKalibrasi := False\<rparr>))
       = Fin 0
   \<and> bufferCount (updateAmoniaBuffer (\<lambda>k. 1365) (initial_state\<lparr>sedangKalibrasi := False\<rparr>))
       = 0
   \<and> \<not> sedangKalibrasi (initial_state\<lparr>sedangKalibrasi := False, R0 := Fin (9625601 / 1024)\<rparr>)
   \<and> R0 (initial_state\<lparr>sedangKalibrasi := False, R0 := Fin (9625601 / 1024)\<rparr>) \<noteq> Fin 0
   \<and> amoniaPPMBuffer
        (updateAmoniaBuffer (\<lambda>k. 1365) (initial_state\<lparr>sedangKalibrasi := False, R0 := Fin (9625601 / 1024)\<rparr>))
       = f_add (Fin 0) (getPPM (Fin 1) (f32 (- 2.3447)) (f32 0.0670))
   \<and> bufferCount
        (updateAmoniaBuffer (\<lambda>k. 1365) (initial_state\<lparr>sedangKalibrasi := False, R0 := Fin (9625601 / 1024)\<rparr>))
       = 1"
  using C5_buffer_update_frame [of initial_state "\<lambda>k. 1365"]
    C5_buffer_update_frame [of "initial_state\<lparr>sedangKalibrasi := False\<rparr>" "\<lambda>k. 1365"]
    C5_buffer_update_frame
      [of "initial_state\<lparr>sedangKalibrasi := False, R0 := Fin (9625601 / 1024)\<rparr>" "\<lambda>k. 1365"]
  by (simp add: initial_state_def sensor_Rs_1365 f_div_Fin f32_one)

lemma AVERAGING_INTERVAL_le:
  "AVERAGING_INTERVAL \<le> now - t \<longleftrightarrow> 300000 \<le> (unat now + 2 ^ 32 - unat t) mod 2 ^ 32"
  by (simp add: word_le_nat_alt AVERAGING_INTERVAL_def word_elapsed)

lemma getAveragedPPM_flush:
  "AVERAGING_INTERVAL \<le> now - lastAveragingTime s \<Longrightarrow>
     getAveragedPPM now s =
       (if 0 <s bufferCount s then buffer_mean s else Fin 0,
        s\<lparr>amoniaPPMBuffer := Fin 0, bufferCount := 0, lastAveragingTime := now\<rparr>)"
  by (simp add: getAveragedPPM_def)

lemma getAveragedPPM_peek:
  "\<not> AVERAGING_INTERVAL \<le> now - lastAveragingTime s \<Longrightarrow>
     getAveragedPPM now s = (if 0 <s bufferCount s then buffer_mean s else Fin 0, s)"
  by (simp add: getAveragedPPM_def)

lemma buffer_three:
  assumes "amoniaPPMBuffer s = Fin 0" "bufferCount s = 0"
  shows "amoniaPPMBuffer (buffer_add (Fin 30) (buffer_add (Fin 20) (buffer_add (Fin 10) s))) = Fin 60"
    "bufferCount (buffer_add (Fin 30) (buffer_add (Fin 20) (buffer_add (Fin 10) s))) = 3"
    "lastAveragingTime (buffer_add (Fin 30) (buffer_add (Fin 20) (buffer_add (Fin 10) s))) =
       lastAveragingTime s"
  using assms by (simp_all add: buffer_add_def f_add_Fin f32_small_ints)

lemma three_positive: "0 <s (3 :: 32 word)" "sint (3 :: 32 word) = 3"
  by (simp_all add: word_sless_alt)

lemma buffer_three_mean:
  assumes "amoniaPPMBuffer s = Fin 0" "bufferCount s = 0"
  shows "buffer_mean (buffer_add (Fin 30) (buffer_add (Fin 20) (buffer_add (Fin 10) s))) = Fin 20"
  unfolding buffer_mean_def buffer_three [OF assms] three_positive
  by (simp add: f32_small_ints f_div_Fin)

text \<open>
  C3. \<^verbatim>\<open>getAveragedPPM\<close> peeks or flushes. Once the averaging interval (300000 ms, in
  unsigned 32-bit arithmetic) has elapsed since the last flush, it returns sum / count, or
  zero without samples, and resets the sum, the count and the start of the window.
  Before that it returns the partial mean, or zero for an empty buffer, and changes
  nothing. With the samples 10, 20 and 30 buffered, a read before the boundary returns 20
  and keeps the buffer, and the first read after it returns 20 and empties the buffer.
\<close>

theorem C3_peek_or_flush:
  "(AVERAGING_INTERVAL \<le> now - lastAveragingTime s \<longrightarrow>
      getAveragedPPM now s =
        (if 0 <s bufferCount s
         then f_div (amoniaPPMBuffer s) (f32 (real_of_int (sint (bufferCount s))))
         else Fin 0,
         s\<lparr>amoniaPPMBuffer := Fin 0, bufferCount := 0, lastAveragingTime := now\<rparr>))
   \<and> (\<not> AVERAGING_INTERVAL \<le> now - lastAveragingTime s \<longrightarrow>
      getAveragedPPM now s =
        (if 0 <s bufferCount s
         then f_div (amoniaPPMBuffer s) (f32 (real_of_int (sint (bufferCount s))))
         else Fin 0,
         s))
   \<and> (AVERAGING_INTERVAL \<le> now - lastAveragingTime s
        \<longleftrightarrow> 300000 \<le> (unat now + 2 ^ 32 - unat (lastAveragingTime s)) mod 2 ^ 32)
   \<and> (amoniaPPMBuffer s = Fin 0 \<and> bufferCount s = 0
        \<and> \<not> AVERAGING_INTERVAL \<le> t1 - lastAveragingTime s
        \<and> AVERAGING_INTERVAL \<le> t2 - lastAveragingTime s \<longrightarrow>
       (let s3 = buffer_add (Fin 30) (buffer_add (Fin 20) (buffer_add (Fin 10) s));
            r1 = getAveragedPPM t1 s3;
            r2 = getAveragedPPM t2 (snd r1)
        in fst r1 = Fin 20 \<and> snd r1 = s3
           \<and> fst r2 = Fin 20
           \<and> snd r2 = s3\<lparr>amoniaPPMBuffer := Fin 0, bufferCount := 0, lastAveragingTime := t2\<rparr>
           \<and> amoniaPPMBuffer (snd r2) = Fin 0 \<and> bufferCount (snd r2) = 0))"
proof (intro conjI impI)
  assume "AVERAGING_INTERVAL \<le> now - lastAveragingTime s"
  then show "getAveragedPPM now s =
        (if 0 <s bufferCount s
         then f_div (amoniaPPMBuffer s) (f32 (real_of_int (sint (bufferCount s))))
         else Fin 0,
         s\<lparr>amoniaPPMBuffer := Fin 0, bufferCount := 0, lastAveragingTime := now\<rparr>)"
    unfolding buffer_mean_def [symmetric] by (rule getAveragedPPM_flush)
next
  assume "\<not> AVERAGING_INTERVAL \<le> now - lastAveragingTime s"
  then show "getAveragedPPM now s =
        (if 0 <s bufferCount s
         then f_div (amoniaPPMBuffer s) (f32 (real_of_int (sint (bufferCount s))))
         else Fin 0,
         s)"
    unfolding buffer_mean_def [symmetric] by (rule getAveragedPPM_peek)
next
  show "AVERAGING_INTERVAL \<le> now - lastAveragingTime s
        \<longleftrightarrow> 300000 \<le> (unat now + 2 ^ 32 - unat (lastAveragingTime s)) mod 2 ^ 32"
    by (rule AVERAGING_INTERVAL_le)
next
  assume a: "amoniaPPMBuffer s = Fin 0 \<and> bufferCount s = 0
        \<and> \<not> AVERAGING_INTERVAL \<le> t1 - lastAveragingTime s
        \<and> AVERAGING_INTERVAL \<le> t2 - lastAveragingTime s"
  define s3 where "s3 = buffer_add (Fin 30) (buffer_add (Fin 20) (buffer_add (Fin 10) s))"
  have e: "amoniaPPMBuffer s = Fin 0" "bufferCount s = 0" using a by simp_all
  have f: "bufferCount s3 = 3" "lastAveragingTime s3 = lastAveragingTime s"
    "buffer_mean s3 = Fin 20"
    unfolding s3_def using buffer_three [OF e] buffer_three_mean [OF e] by simp_all
  have r1: "getAveragedPPM t1 s3 = (Fin 20, s3)"
    using a by (simp add: getAveragedPPM_peek f three_positive)
  have r2: "getAveragedPPM t2 s3 =
      (Fin 20, s3\<lparr>amoniaPPMBuffer := Fin 0, bufferCount := 0, lastAveragingTime := t2\<rparr>)"
    using a by (simp add: getAveragedPPM_flush f three_positive)
  show "let s3 = buffer_add (Fin 30) (buffer_add (Fin 20) (buffer_add (Fin 10) s));
            r1 = getAveragedPPM t1 s3;
            r2 = getAveragedPPM t2 (snd r1)
        in fst r1 = Fin 20 \<and> snd r1 = s3
           \<and> fst r2 = Fin 20
           \<and> snd r2 = s3\<lparr>amoniaPPMBuffer := Fin 0, bufferCount := 0, lastAveragingTime := t2\<rparr>
           \<and> amoniaPPMBuffer (snd r2) = Fin 0 \<and> bufferCount (snd r2) = 0"
    unfolding s3_def [symmetric] Let_def r1 snd_conv fst_conv r2 by simp
qed

theorem C3_peek_or_flush_witness:
  "AVERAGING_INTERVAL \<le> 300000 - lastAveragingTime initial_state
   \<and> \<not> AVERAGING_INTERVAL \<le> 299999 - lastAveragingTime initial_state
   \<and> getAveragedPPM 300000 initial_state =
       (Fin 0, initial_state\<lparr>amoniaPPMBuffer := Fin 0, bufferCount := 0,
                 lastAveragingTime := 300000\<rparr>)
   \<and> getAveragedPPM 299999 initial_state = (Fin 0, initial_state)
   \<and> getAveragedPPM 299999
        (buffer_add (Fin 30) (buffer_add (Fin 20) (buffer_add (Fin 10) initial_state))) =
       (Fin 20, buffer_add (Fin 30) (buffer_add (Fin 20) (buffer_add (Fin 10) initial_state)))
   \<and> getAveragedPPM 300000
        (buffer_add (Fin 30) (buffer_add (Fin 20) (buffer_add (Fin 10) initial_state))) =
       (Fin 20, initial_state\<lparr>amoniaPPMBuffer := Fin 0, bufferCount := 0,
                  lastAveragingTime := 300000\<rparr>)"
proof -
  have h: "AVERAGING_INTERVAL \<le> 300000 - lastAveragingTime initial_state"
    "\<not> AVERAGING_INTERVAL \<le> 299999 - lastAveragingTime initial_state"
    "amoniaPPMBuffer initial_state = Fin 0" "bufferCount initial_state = 0"
    by (simp_all add: initial_state_def AVERAGING_INTERVAL_def)
  have b: "buffer_add (Fin 30) (buffer_add (Fin 20) (buffer_add (Fin 10) initial_state)) =
      initial_state\<lparr>amoniaPPMBuffer := Fin 60, bufferCount := 3\<rparr>"
    by (simp add: buffer_add_def initial_state_def f_add_Fin f32_small_ints)
  have p: "getAveragedPPM 299999 (initial_state\<lparr>amoniaPPMBuffer := Fin 60, bufferCount := 3\<rparr>)
      = (Fin 20, initial_state\<lparr>amoniaPPMBuffer := Fin 60, bufferCount := 3\<rparr>)"
    using C3_peek_or_flush [of 299999 initial_state 299999 300000] h
    unfolding b Let_def  by (metis prod.collapse)
  show ?thesis
    using h p C3_peek_or_flush [of 300000 initial_state 299999 300000]
      C3_peek_or_flush [of 299999 initial_state 299999 300000]
    unfolding b Let_def
    by (simp add: initial_state_def prod_eq_iff)
qed

section \<open>Properties of the soap, tissue and water blocks\<close>

lemma digit_char_not_newline: "d < 10 \<Longrightarrow> digit_char d \<noteq> newline"
proof -
  assume "d < 10"
  then have "d \<in> {0,1,2,3,4,5,6,7,8,9}" by auto
  then show ?thesis
    by (auto simp: digit_char_def newline_def)
qed

lemma dec_digits_no_newline: "newline \<notin> set (dec_digits n)"
proof (induction n rule: dec_digits.induct)
  case (1 n)
  show ?case
  proof (cases "n < 10")
    case True
    then have "digit_char n \<noteq> newline" by (rule digit_char_not_newline)
    with True show ?thesis
      by (subst dec_digits.simps) auto
  next
    case False
    have "n mod 10 < 10" by simp
    then have "digit_char (n mod 10) \<noteq> newline" by (rule digit_char_not_newline)
    with False "1.IH" show ?thesis
      by (subst dec_digits.simps) auto
  qed
qed

lemma String_long_no_newline: "newline \<notin> set (String_long n)"
proof -
  have "CHR ''-'' \<noteq> newline" by (simp add: newline_def)
  then show ?thesis
    by (auto simp: String_long_def dec_digits_no_newline)
qed

lemma lines_of_append:
  "newline \<notin> set xs \<Longrightarrow> lines_of (xs @ newline # ys) = xs # lines_of ys"
  by (induction xs) auto

lemma lines_of_single: "newline \<notin> set xs \<Longrightarrow> lines_of xs = [xs]"
  by (induction xs) auto

lemma soap_line_no_newline:
  assumes "newline \<notin> set label"
  shows "newline \<notin> set (soap_line label d)"
proof -
  have "newline \<notin> set ('' cm | Status: '' @ (if 10 < d then ''Habis'' else ''Aman''))"
    by (simp add: newline_def)
  with assms String_long_no_newline [of d] show ?thesis
    unfolding soap_line_def by (simp only: set_append Un_iff) blast
qed

lemma lines_of_getSoapData:
  "lines_of (getSoapData d1 d2 d3) =
     [''--- Ketersediaan Sabun ---'', soap_line ''Sabun 1 | Jarak: '' d1,
      soap_line ''Sabun 2 | Jarak: '' d2, soap_line ''Sabun 3 | Jarak: '' d3]"
proof -
  have h: "newline \<notin> set ''--- Ketersediaan Sabun ---''"
    by (simp add: newline_def)
  have l: "newline \<notin> set ''Sabun 1 | Jarak: ''" "newline \<notin> set ''Sabun 2 | Jarak: ''"
    "newline \<notin> set ''Sabun 3 | Jarak: ''"
    by (simp_all add: newline_def)
  have "getSoapData d1 d2 d3 =
      ''--- Ketersediaan Sabun ---'' @ newline # soap_line ''Sabun 1 | Jarak: '' d1
        @ newline # soap_line ''Sabun 2 | Jarak: '' d2
        @ newline # soap_line ''Sabun 3 | Jarak: '' d3"
    by (simp add: getSoapData_def soap_line_def Let_def)
  then show ?thesis
    by (simp only: lines_of_append [OF h] lines_of_append [OF soap_line_no_newline [OF l(1)]]
        lines_of_append [OF soap_line_no_newline [OF l(2)]]
        lines_of_single [OF soap_line_no_newline [OF l(3)]])
qed

lemma suffix_last: "suffix xs l \<Longrightarrow> xs \<noteq> [] \<Longrightarrow> last l = last xs"
  by (auto simp: suffix_def)

lemma soap_line_Habis: "suffix ''Status: Habis'' (soap_line label d) \<longleftrightarrow> 10 < d"
proof
  assume "10 < d"
  then have "soap_line label d = (label @ String_long d @ '' cm | '') @ ''Status: Habis''"
    by (simp add: soap_line_def)
  then show "suffix ''Status: Habis'' (soap_line label d)"
    by (simp only: suffixI)
next
  assume s: "suffix ''Status: Habis'' (soap_line label d)"
  show "10 < d"
  proof (rule ccontr)
    assume "\<not> 10 < d"
    then have "last (soap_line label d) = CHR ''n''"
      by (simp add: soap_line_def)
    with suffix_last [OF s] show False by simp
  qed
qed

lemma soap_line_Aman: "suffix ''Status: Aman'' (soap_line label d) \<longleftrightarrow> \<not> 10 < d"
proof
  assume "\<not> 10 < d"
  then have "soap_line label d = (label @ String_long d @ '' cm | '') @ ''Status: Aman''"
    by (simp add: soap_line_def)
  then show "suffix ''Status: Aman'' (soap_line label d)"
    by (simp only: suffixI)
next
  assume s: "suffix ''Status: Aman'' (soap_line label d)"
  show "\<not> 10 < d"
  proof
    assume "10 < d"
    then have "last (soap_line label d) = CHR ''s''"
      by (simp add: soap_line_def)
    with suffix_last [OF s] show False by simp
  qed
qed

lemma lines_of_getTissueData:
  "lines_of (getTissueData pin1 pin2) =
     [''--- Ketersediaan Tisu ---'',
      if pin1 = LOW then ''Status 1: Tisu Habis!'' else ''Status 1: Tisu Tersedia.'',
      if pin2 = LOW then ''Status 2: Tisu Habis!'' else ''Status 2: Tisu Tersedia.'']"
  by (simp add: getTissueData_def Let_def newline_def)

lemma lines_of_getWaterData:
  "lines_of (getWaterData pin) =
     [''--- Deteksi Genangan Air ---'',
      if pin = LOW then ''Status: Genangan air terdeteksi.'' else ''Status: Lantai kering.'']"
  by (simp add: getWaterData_def Let_def newline_def)

text \<open>
  C8. Each unit is classified by one threshold or pin level. In the soap block, the line
  of a unit ends in "Status: Habis" exactly when its distance exceeds 10 cm and in
  "Status: Aman" otherwise; in the tissue block, the line of a unit is "Tisu Habis!"
  exactly when its pin reads LOW and "Tisu Tersedia." otherwise; the water block reports
  standing water exactly when the pin reads LOW and a dry floor otherwise.
\<close>

theorem C8_sensor_classification:
  "(let ls = lines_of (getSoapData d1 d2 d3) in
      length ls = 4
      \<and> (suffix ''Status: Habis'' (ls ! 1) \<longleftrightarrow> 10 < d1)
      \<and> (suffix ''Status: Aman'' (ls ! 1) \<longleftrightarrow> \<not> 10 < d1)
      \<and> (suffix ''Status: Habis'' (ls ! 2) \<longleftrightarrow> 10 < d2)
      \<and> (suffix ''Status: Aman'' (ls ! 2) \<longleftrightarrow> \<not> 10 < d2)
      \<and> (suffix ''Status: Habis'' (ls ! 3) \<longleftrightarrow> 10 < d3)
      \<and> (suffix ''Status: Aman'' (ls ! 3) \<longleftrightarrow> \<not> 10 < d3))
   \<and> (let ls = lines_of (getTissueData pin1 pin2) in
      length ls = 3
      \<and> (ls ! 1 = ''Status 1: Tisu Habis!'' \<longleftrightarrow> pin1 = LOW)
      \<and> (ls ! 1 = ''Status 1: Tisu Tersedia.'' \<longleftrightarrow> pin1 \<noteq> LOW)
      \<and> (ls ! 2 = ''Status 2: Tisu Habis!'' \<longleftrightarrow> pin2 = LOW)
      \<and> (ls ! 2 = ''Status 2: Tisu Tersedia.'' \<longleftrightarrow> pin2 \<noteq> LOW))
   \<and> (let ls = lines_of (getWaterData pin) in
      length ls = 2
      \<and> (ls ! 1 = ''Status: Genangan air terdeteksi.'' \<longleftrightarrow> pin = LOW)
      \<and> (ls ! 1 = ''Status: Lantai kering.'' \<longleftrightarrow> pin \<noteq> LOW))"
proof -
  have soap: "let ls = lines_of (getSoapData d1 d2 d3) in
      length ls = 4
      \<and> (suffix ''Status: Habis'' (ls ! 1) \<longleftrightarrow> 10 < d1)
      \<and> (suffix ''Status: Aman'' (ls ! 1) \<longleftrightarrow> \<not> 10 < d1)
      \<and> (suffix ''Status: Habis'' (ls ! 2) \<longleftrightarrow> 10 < d2)
      \<and> (suffix ''Status: Aman'' (ls ! 2) \<longleftrightarrow> \<not> 10 < d2)
      \<and> (suffix ''Status: Habis'' (ls ! 3) \<longleftrightarrow> 10 < d3)
      \<and> (suffix ''Status: Aman'' (ls ! 3) \<longleftrightarrow> \<not> 10 < d3)"
    unfolding lines_of_getSoapData Let_def
    by (simp only: soap_line_Habis soap_line_Aman nth_Cons_Suc nth_Cons_0 One_nat_def
        numeral_2_eq_2 numeral_3_eq_3 list.size) simp
  have tissue: "let ls = lines_of (getTissueData pin1 pin2) in
      length ls = 3
      \<and> (ls ! 1 = ''Status 1: Tisu Habis!'' \<longleftrightarrow> pin1 = LOW)
      \<and> (ls ! 1 = ''Status 1: Tisu Tersedia.'' \<longleftrightarrow> pin1 \<noteq> LOW)
      \<and> (ls ! 2 = ''Status 2: Tisu Habis!'' \<longleftrightarrow> pin2 = LOW)
      \<and> (ls ! 2 = ''Status 2: Tisu Tersedia.'' \<longleftrightarrow> pin2 \<noteq> LOW)"
    unfolding lines_of_getTissueData Let_def by simp
  have water: "let ls = lines_of (getWaterData pin) in
      length ls = 2
      \<and> (ls ! 1 = ''Status: Genangan air terdeteksi.'' \<longleftrightarrow> pin = LOW)
      \<and> (ls ! 1 = ''Status: Lantai kering.'' \<longleftrightarrow> pin \<noteq> LOW)"
    unfolding lines_of_getWaterData Let_def by simp
  from soap tissue water show ?thesis by blast
qed

end
